theory Spec2Isabelle
  imports Complex_Main "HOL-Library.AList"
begin

section \<open>The session runtime of app.js\<close>

text \<open>
  The model covers the authenticated client (\<open>decodeJwt\<close>, \<open>api\<close>,
  \<open>handleUnauthorizedResponse\<close>), the faction directory cache
  (\<open>getFactionDirectory\<close>, \<open>resolveFactionName\<close>) and the three roster dialogs
  (\<open>openManageMembersModal\<close>, \<open>openManagePersonnelModal\<close>,
  \<open>openManageTargetsModal\<close>) of \<open>backend/index/static/index/app.js\<close>.

  JavaScript's module-level variables and \<open>localStorage\<close> are fields of one state
  record that every function takes and returns. A promise that rejects and a \<open>throw\<close>
  are the \<open>Inl\<close> branch of a sum. The platform (\<open>fetch\<close>, \<open>Date.now\<close>,
  \<open>setTimeout\<close>) is part of the state: a clock in milliseconds, the pending timers,
  and the script of outcomes that the next calls of \<open>fetch\<close> will have.
\<close>

subsection \<open>Values on the wire\<close>

text \<open>What \<open>JSON.stringify\<close> is given as a request body.\<close>

datatype json = JNum int | JStr string | JArr "json list" | JObj "(string \<times> json) list"

text \<open>
  An entry of the faction list. \<open>id_key\<close> is \<open>String(item.id)\<close>, the only way the
  modelled code reads the id; \<open>name\<close> is \<open>item.name\<close>, the empty string when it is
  absent or falsy.
\<close>

record faction_item =
  id_key :: string
  name :: string

text \<open>
  What \<open>await res.json()\<close> gives, as far as the modelled code distinguishes it:
  a rejection, \<open>null\<close>, an object (of which only \<open>access\<close> is read; the empty string
  when the field is absent or falsy), or an array (whose elements may be \<open>null\<close>).
\<close>

datatype body =
    Unparseable
  | Json_null
  | Json_object (access_field: string)
  | Json_array "faction_item option list"

record response =
  status :: nat
  body :: body

definition ok :: "response \<Rightarrow> bool" where
  "ok res = (200 \<le> status res \<and> status res \<le> 299)"

datatype fetch_result = NetworkError | Response response

record request =
  url :: string
  "method" :: string
  headers :: "(string \<times> string) list"
  payload :: "json option"

text \<open>The second argument of \<open>api\<close>: \<open>opts.method\<close>, \<open>opts.headers\<close>, \<open>opts.body\<close>.\<close>

record opts =
  opts_method :: string
  opts_headers :: "(string \<times> string) list"
  opts_body :: "json option"

datatype error =
    Error string
  | Rejected

subsection \<open>State\<close>

text \<open>
  The call site of a \<open>fetch\<close> inside \<open>api\<close> (lines 91, 117, 127 and 140); it is
  recorded with the request so that a trace tells a refresh from the request itself.
\<close>

datatype site = Proactive_refresh | Initial_request | Reactive_refresh | Retry_request

datatype event =
    Fetch site request fetch_result
  | Called_handleUnauthorizedResponse
  | CloseModal
  | HideOverlay
  | SwitchTier string
  | ShowMessage string string
  | ShowErrorMessage error
  | OpenFactionDetail string
  | OpenLoomOperationDetail string

record user =
  role :: string
  username :: string
  display_name :: string

record directory =
  list :: "faction_item option list"
  byName :: "(string \<times> faction_item) list"
  byId :: "(string \<times> faction_item) list"
  timestamp :: int

record app_state =
  localStorage :: "string \<rightharpoonup> string"
  sessionInvalidated :: bool
  currentUser :: user
  factionDirectoryCache :: directory
  clock :: int
  timers :: "int list"
  network :: "(nat \<times> fetch_result) list"
  trace :: "event list"

text \<open>
  \<open>clock\<close> is \<open>Date.now()\<close>. \<open>timers\<close> holds the due time of every pending
  \<open>setTimeout(() => { sessionInvalidated = false; }, 1500)\<close>, the only timer of the
  modelled code. \<open>network\<close> scripts the calls of \<open>fetch\<close> to come: how long each
  takes and what it gives; with the script used up, \<open>fetch\<close> rejects.
  \<open>trace\<close> records what the code did to the outside: requests and user interface
  effects, and each call of \<open>handleUnauthorizedResponse\<close> made by \<open>api\<close>.
\<close>

definition emit :: "event \<Rightarrow> app_state \<Rightarrow> app_state" where
  "emit e s = trace_update (\<lambda>t. t @ [e]) s"

text \<open>
  Time passes only while the code is suspended. The timers that fall due run then;
  each resets the flag.
\<close>

definition advance :: "nat \<Rightarrow> app_state \<Rightarrow> app_state" where
  "advance d s =
     (let t = clock s + int d in
      s\<lparr>clock := t,
        timers := filter (\<lambda>due. \<not> due \<le> t) (timers s),
        sessionInvalidated :=
          (if filter (\<lambda>due. due \<le> t) (timers s) = [] then sessionInvalidated s else False)\<rparr>)"

definition setTimeout_reset :: "nat \<Rightarrow> app_state \<Rightarrow> app_state" where
  "setTimeout_reset delay s = timers_update (\<lambda>ts. ts @ [clock s + int delay]) s"

definition fetch :: "site \<Rightarrow> request \<Rightarrow> app_state \<Rightarrow> fetch_result \<times> app_state" where
  "fetch site req s =
     (case network s of
        [] \<Rightarrow> (NetworkError, emit (Fetch site req NetworkError) s)
      | (d, r) # rest \<Rightarrow> (r, advance d (emit (Fetch site req r) (s\<lparr>network := rest\<rparr>))))"

subsection \<open>Token storage, user store, state store\<close>

definition getItem :: "string \<Rightarrow> app_state \<Rightarrow> string option" where
  "getItem k s = localStorage s k"

definition setItem :: "string \<Rightarrow> string \<Rightarrow> app_state \<Rightarrow> app_state" where
  "setItem k v s = localStorage_update (\<lambda>m. m(k \<mapsto> v)) s"

definition removeItem :: "string \<Rightarrow> app_state \<Rightarrow> app_state" where
  "removeItem k s = localStorage_update (\<lambda>m. m(k := None)) s"

text \<open>\<open>localStorage.getItem(k) || ''\<close>\<close>

definition tokens_access :: "app_state \<Rightarrow> string" where
  "tokens_access s = (case getItem ''abx_access'' s of None \<Rightarrow> [] | Some v \<Rightarrow> v)"

definition tokens_refresh :: "app_state \<Rightarrow> string" where
  "tokens_refresh s = (case getItem ''abx_refresh'' s of None \<Rightarrow> [] | Some v \<Rightarrow> v)"

definition set_tokens_access :: "string \<Rightarrow> app_state \<Rightarrow> app_state" where
  "set_tokens_access v s = setItem ''abx_access'' v s"

definition tokens_clear :: "app_state \<Rightarrow> app_state" where
  "tokens_clear s = removeItem ''abx_refresh'' (removeItem ''abx_access'' s)"

definition userStore_clear :: "app_state \<Rightarrow> app_state" where
  "userStore_clear s =
     removeItem ''abx_display_name'' (removeItem ''abx_username'' (removeItem ''abx_role'' s))"

definition stateStore_del :: "string \<Rightarrow> app_state \<Rightarrow> app_state" where
  "stateStore_del k s = removeItem k s"

subsection \<open>The directory cache's empty snapshot, and the tier switch\<close>

definition empty_directory :: directory where
  "empty_directory = \<lparr>list = [], byName = [], byId = [], timestamp = 0\<rparr>"

definition invalidateFactionDirectory :: "app_state \<Rightarrow> app_state" where
  "invalidateFactionDirectory s = s\<lparr>factionDirectoryCache := empty_directory\<rparr>"

text \<open>
  \<open>switchTier\<close> shows one of the three tiers and stores \<open>JSON.stringify(tier)\<close>
  under \<open>abx_tier\<close>.
\<close>

definition switchTier :: "string \<Rightarrow> app_state \<Rightarrow> app_state" where
  "switchTier tier s = setItem ''abx_tier'' ([CHR 0x22] @ tier @ [CHR 0x22]) (emit (SwitchTier tier) s)"

subsection \<open>handleUnauthorizedResponse (lines 156 to 172)\<close>

definition handleUnauthorizedResponse :: "string \<Rightarrow> app_state \<Rightarrow> app_state" where
  "handleUnauthorizedResponse message s =
     (if sessionInvalidated s then s
      else
        let s = s\<lparr>sessionInvalidated := True\<rparr>;
            s = tokens_clear s;
            s = userStore_clear s;
            s = s\<lparr>currentUser := \<lparr>role = [], username = [], display_name = []\<rparr>\<rparr>;
            s = stateStore_del ''abx_tier'' s;
            s = stateStore_del ''abx_page'' s;
            s = stateStore_del ''abx_profile_id'' s;
            s = stateStore_del ''abx_index_filters'' s;
            s = invalidateFactionDirectory s;
            s = emit CloseModal s;
            s = emit HideOverlay s;
            s = switchTier ''login'' s;
            s = emit (ShowMessage message ''error'') s
        in setTimeout_reset 1500 s)"

definition session_expired_message :: string where
  "session_expired_message = ''Session expired. Please log in again.''"


subsection \<open>decodeJwt (lines 65 to 77)\<close>

text \<open>\<open>token.split('.')\<close>\<close>

fun split_dot :: "string \<Rightarrow> string list" where
  "split_dot [] = [[]]"
| "split_dot (c # cs) =
     (if c = CHR ''.'' then [] # split_dot cs
      else (case split_dot cs of [] \<Rightarrow> [[c]] | p # ps \<Rightarrow> (c # p) # ps))"

text \<open>
  What the caller of \<open>decodeJwt\<close> can tell of a decoded payload: a falsy value other
  than \<open>null\<close> (\<open>0\<close>, \<open>false\<close>, the empty string), or a truthy value, with its
  \<open>exp\<close> when \<open>exp * 1000\<close> is a number and \<open>None\<close> when it is \<open>NaN\<close>
  (\<open>exp\<close> absent or not numeric). Numbers are exact: \<open>exp\<close> is a real, whole or
  fractional, and the rounding of the product is not modelled.
\<close>

datatype decoded = Falsy | Claims "real option"

text \<open>\<open>.replace(/-/g, '+').replace(/_/g, '/')\<close>\<close>

definition base64_of_url :: "string \<Rightarrow> string" where
  "base64_of_url b =
     map (\<lambda>c. if c = CHR ''_'' then CHR ''/'' else c) (map (\<lambda>c. if c = CHR ''-'' then CHR ''+'' else c) b)"

text \<open>
  The built-ins \<open>atob\<close>, \<open>decodeURIComponent\<close> and \<open>JSON.parse\<close> are the parameter
  \<open>parse\<close>: \<open>None\<close> where one of them throws or the payload is \<open>null\<close>. A token
  with no second segment makes \<open>base64Url\<close> undefined, \<open>replace\<close> throws, and the
  \<open>catch\<close> returns \<open>null\<close>.
\<close>

definition decodeJwt :: "(string \<Rightarrow> decoded option) \<Rightarrow> string \<Rightarrow> decoded option" where
  "decodeJwt parse token =
     (case split_dot token of
        _ # base64Url # _ \<Rightarrow> parse (base64_of_url base64Url)
      | _ \<Rightarrow> None)"

subsection \<open>api (lines 79 to 154)\<close>

definition refresh_request :: "app_state \<Rightarrow> request" where
  "refresh_request s =
     \<lparr>url = ''/api/auth/token/refresh/'', method = ''POST'',
      headers = [(''Content-Type'', ''application/json'')],
      payload = Some (JObj [(''refresh'', JStr (tokens_refresh s))])\<rparr>"

text \<open>A call of \<open>handleUnauthorizedResponse()\<close> from \<open>api\<close>, recorded in the trace.\<close>

definition call_handleUnauthorizedResponse :: "app_state \<Rightarrow> app_state" where
  "call_handleUnauthorizedResponse s =
     handleUnauthorizedResponse session_expired_message (emit Called_handleUnauthorizedResponse s)"

text \<open>
  \<open>const data = await rf.json()\<close> followed by \<open>data.access\<close>: the read throws on
  \<open>null\<close> and is undefined (falsy) on an array.
\<close>

definition data_access :: "body \<Rightarrow> error + string" where
  "data_access b =
     (case b of
        Unparseable \<Rightarrow> Inl Rejected
      | Json_null \<Rightarrow> Inl Rejected
      | Json_object a \<Rightarrow> Inr a
      | Json_array _ \<Rightarrow> Inr [])"

text \<open>
  Line 85: \<open>decodedToken && decodedToken.exp * 1000 < Date.now() + 60000\<close>. A
  \<open>null\<close> or falsy payload, or one whose \<open>exp\<close> is not a number, does not pass.
\<close>

definition token_expiring :: "decoded option \<Rightarrow> int \<Rightarrow> bool" where
  "token_expiring decodedToken now =
     (case decodedToken of
        Some (Claims (Some expiry)) \<Rightarrow> expiry * 1000 < real_of_int now + 60000
      | _ \<Rightarrow> False)"

text \<open>
  Lines 86 to 110, the body of that \<open>if\<close>. The result is the new access token.
  Inside the \<open>try\<close>, each \<open>throw\<close> that follows a call of
  \<open>handleUnauthorizedResponse\<close> is caught by the \<open>catch\<close>, which calls it again and
  rethrows.
\<close>

definition refresh_before_request :: "app_state \<Rightarrow> (error + string) \<times> app_state" where
  "refresh_before_request s =
     (if tokens_refresh s = [] then
        (Inl (Error ''Session expired.''), call_handleUnauthorizedResponse s)
      else
        (case fetch Proactive_refresh (refresh_request s) s of
           (NetworkError, s1) \<Rightarrow> (Inl Rejected, call_handleUnauthorizedResponse s1)
         | (Response rf, s1) \<Rightarrow>
             if \<not> ok rf then
               (Inl (Error ''Session expired.''),
                call_handleUnauthorizedResponse (call_handleUnauthorizedResponse s1))
             else
               (case data_access (body rf) of
                  Inl e \<Rightarrow> (Inl e, call_handleUnauthorizedResponse s1)
                | Inr a \<Rightarrow>
                    if a \<noteq> [] then (Inr a, set_tokens_access a s1)
                    else
                      (Inl (Error ''Session expired.''),
                       call_handleUnauthorizedResponse (call_handleUnauthorizedResponse s1)))))"

text \<open>Lines 82 to 112. The result is the access token to attach to the request.\<close>

definition proactive_refresh ::
  "(string \<Rightarrow> decoded option) \<Rightarrow> string \<Rightarrow> app_state \<Rightarrow> (error + string) \<times> app_state" where
  "proactive_refresh parse accessToken s =
     (if accessToken \<noteq> [] then
        if token_expiring (decodeJwt parse accessToken) (clock s) then refresh_before_request s
        else (Inr accessToken, s)
      else (Inr accessToken, s))"

text \<open>\<open>Object.assign(target, source)\<close> on string-keyed objects.\<close>

definition object_assign ::
  "(string \<times> string) list \<Rightarrow> (string \<times> string) list \<Rightarrow> (string \<times> string) list" where
  "object_assign target source = fold (\<lambda>(k, v). AList.update k v) source target"

definition request_headers :: "opts \<Rightarrow> (string \<times> string) list" where
  "request_headers opts =
     object_assign [(''Content-Type'', ''application/json'')] (opts_headers opts)"

text \<open>Line 115: \<open>if (accessToken) headers['Authorization'] = `Bearer ${accessToken}`\<close>\<close>

definition attach_token :: "string \<Rightarrow> (string \<times> string) list \<Rightarrow> (string \<times> string) list" where
  "attach_token accessToken hs =
     (if accessToken \<noteq> [] then AList.update ''Authorization'' (''Bearer '' @ accessToken) hs else hs)"

definition api_request :: "string \<Rightarrow> opts \<Rightarrow> (string \<times> string) list \<Rightarrow> request" where
  "api_request path opts hs =
     \<lparr>url = path, method = opts_method opts, headers = hs, payload = opts_body opts\<rparr>"

text \<open>Lines 119 to 151: the response \<open>res\<close> had status 401.\<close>

definition reactive_refresh ::
  "string \<Rightarrow> opts \<Rightarrow> response \<Rightarrow> app_state \<Rightarrow> (error + response) \<times> app_state" where
  "reactive_refresh path opts res s =
     (if tokens_refresh s = [] then (Inr res, call_handleUnauthorizedResponse s)
      else
        (case fetch Reactive_refresh (refresh_request s) s of
           (NetworkError, s1) \<Rightarrow> (Inr res, call_handleUnauthorizedResponse s1)
         | (Response rf, s1) \<Rightarrow>
             if \<not> ok rf then (Inr res, call_handleUnauthorizedResponse s1)
             else
               (case data_access (body rf) of
                  Inl e \<Rightarrow> (Inr res, call_handleUnauthorizedResponse s1)
                | Inr a \<Rightarrow>
                    if a \<noteq> [] then
                      let s2 = set_tokens_access a s1;
                          headers2 = AList.update ''Authorization'' (''Bearer '' @ tokens_access s2)
                                       (request_headers opts)
                      in (case fetch Retry_request (api_request path opts headers2) s2 of
                            (NetworkError, s3) \<Rightarrow> (Inr res, call_handleUnauthorizedResponse s3)
                          | (Response retry, s3) \<Rightarrow>
                              (Inr retry,
                               if status retry = 401 then call_handleUnauthorizedResponse s3 else s3))
                    else (Inr res, call_handleUnauthorizedResponse s1))))"

definition api ::
  "(string \<Rightarrow> decoded option) \<Rightarrow> string \<Rightarrow> opts \<Rightarrow> app_state \<Rightarrow> (error + response) \<times> app_state" where
  "api parse path opts s =
     (case proactive_refresh parse (tokens_access s) s of
        (Inl e, s1) \<Rightarrow> (Inl e, s1)
      | (Inr accessToken, s1) \<Rightarrow>
          (case fetch Initial_request
                  (api_request path opts (attach_token accessToken (request_headers opts))) s1 of
             (NetworkError, s2) \<Rightarrow> (Inl Rejected, s2)
           | (Response res, s2) \<Rightarrow>
               if status res = 401 then reactive_refresh path opts res s2 else (Inr res, s2)))"

text \<open>\<open>api(path)\<close> with \<open>opts = {}\<close>; the empty method is \<open>fetch\<close>'s default.\<close>

definition no_opts :: opts where
  "no_opts = \<lparr>opts_method = [], opts_headers = [], opts_body = None\<rparr>"

text \<open>What a call added to the trace.\<close>

definition events_since :: "app_state \<Rightarrow> app_state \<Rightarrow> event list" where
  "events_since s s' = drop (length (trace s)) (trace s')"


section \<open>The faction directory cache\<close>

subsection \<open>getFactionDirectory (lines 288 to 305)\<close>

text \<open>The body of \<open>list.forEach\<close>: one item is entered in both maps, or skipped.\<close>

definition index_item ::
  "faction_item option \<Rightarrow> (string \<times> faction_item) list \<times> (string \<times> faction_item) list
     \<Rightarrow> (string \<times> faction_item) list \<times> (string \<times> faction_item) list" where
  "index_item item acc =
     (case item of
        None \<Rightarrow> acc
      | Some it \<Rightarrow>
          if name it = [] then acc
          else (AList.update (name it) it (fst acc), AList.update (id_key it) it (snd acc)))"

definition build_directory :: "faction_item option list \<Rightarrow> int \<Rightarrow> directory" where
  "build_directory items now =
     (let maps = fold index_item items ([], [])
      in \<lparr>list = items, byName = fst maps, byId = snd maps, timestamp = now\<rparr>)"

text \<open>
  \<open>Failed_status m n\<close> is the error whose message is \<open>m\<close> followed by the status
  \<open>n\<close> in parentheses. A body that is not an array makes \<open>res.json()\<close> or
  \<open>list.forEach\<close> throw.
\<close>

datatype directory_error = Api_error error | Failed_status string nat | Not_a_list

definition getFactionDirectory ::
  "(string \<Rightarrow> decoded option) \<Rightarrow> bool \<Rightarrow> app_state \<Rightarrow> (directory_error + directory) \<times> app_state" where
  "getFactionDirectory parse force s =
     (let now = clock s in
      if \<not> force \<and> list (factionDirectoryCache s) \<noteq> []
         \<and> now - timestamp (factionDirectoryCache s) < 60000
      then (Inr (factionDirectoryCache s), s)
      else
        (case api parse ''/api/scales/factions/'' no_opts s of
           (Inl e, s1) \<Rightarrow> (Inl (Api_error e), s1)
         | (Inr res, s1) \<Rightarrow>
             if \<not> ok res then (Inl (Failed_status ''Failed to fetch faction directory'' (status res)), s1)
             else
               (case body res of
                  Json_array items \<Rightarrow>
                    let d = build_directory items now
                    in (Inr d, s1\<lparr>factionDirectoryCache := d\<rparr>)
                | _ \<Rightarrow> (Inl Not_a_list, s1))))"

subsection \<open>resolveFactionName (lines 267 to 279)\<close>

text \<open>
  The built-ins \<open>String.prototype.trim\<close> and \<open>String.prototype.toLowerCase\<close> are
  the parameters \<open>trim\<close> and \<open>toLowerCase\<close>: the function is modelled for whatever
  they do to a string, outside ASCII too.
\<close>

text \<open>The \<open>for\<close> loop over the list; \<open>String(item?.name || '')\<close> is the label.\<close>

fun scan_list :: "(string \<Rightarrow> string) \<Rightarrow> string \<Rightarrow> faction_item option list \<Rightarrow> string option" where
  "scan_list toLowerCase lower [] = None"
| "scan_list toLowerCase lower (item # rest) =
     (let label = (case item of None \<Rightarrow> [] | Some it \<Rightarrow> name it)
      in if toLowerCase label = lower then Some label else scan_list toLowerCase lower rest)"

definition resolveFactionName ::
  "(string \<Rightarrow> string) \<Rightarrow> (string \<Rightarrow> string) \<Rightarrow> string \<Rightarrow> app_state \<Rightarrow> string" where
  "resolveFactionName trim toLowerCase v s =
     (let nm = trim v in
      if nm = [] then []
      else
        (case map_of (byName (factionDirectoryCache s)) nm of
           Some exact \<Rightarrow>
             if name exact \<noteq> [] then name exact
             else (case scan_list toLowerCase (toLowerCase nm) (list (factionDirectoryCache s)) of
                     Some label \<Rightarrow> label | None \<Rightarrow> nm)
         | None \<Rightarrow>
             (case scan_list toLowerCase (toLowerCase nm) (list (factionDirectoryCache s)) of
                Some label \<Rightarrow> label | None \<Rightarrow> nm)))"

text \<open>
  What the two built-ins do to a string of ASCII characters: \<open>trim\<close> strips tab, line
  feed, vertical tab, form feed, carriage return and space from both ends, and
  \<open>toLowerCase\<close> maps \<open>A\<close> to \<open>Z\<close>. They stand for the built-ins on ASCII inputs only.
\<close>

definition ascii_space :: "char \<Rightarrow> bool" where
  "ascii_space c = ((9::nat) \<le> of_char c \<and> of_char c \<le> (13::nat) \<or> of_char c = (32::nat))"

definition ascii_trim :: "string \<Rightarrow> string" where
  "ascii_trim v = rev (dropWhile ascii_space (rev (dropWhile ascii_space v)))"

definition ascii_lower_char :: "char \<Rightarrow> char" where
  "ascii_lower_char c =
     (case map_of (zip ''ABCDEFGHIJKLMNOPQRSTUVWXYZ'' ''abcdefghijklmnopqrstuvwxyz'') c of
        Some l \<Rightarrow> l
      | None \<Rightarrow> c)"

definition ascii_toLowerCase :: "string \<Rightarrow> string" where
  "ascii_toLowerCase v = map ascii_lower_char v"

section \<open>The roster dialogs\<close>

subsection \<open>openManageMembersModal: state (lines 3116 to 3132)\<close>

definition AFFILIATION_DEFAULTS :: "string list" where
  "AFFILIATION_DEFAULTS =
     [''Leader'', ''High ranking member'', ''Member'', ''Associate'', ''Hangaround'',
      ''Affiliate'', ''Supporter'', ''Informant'', ''Unknown'']"

record roster_entry =
  profile_id :: int
  full_name :: string
  aliases :: "string list"
  affiliation :: string
  originalAffiliation :: string
  isNew :: bool
  isRemoved :: bool

record candidate =
  cand_profile_id :: int
  cand_full_name :: string
  cand_aliases :: "string list"
  cand_affiliation :: string

text \<open>
  \<open>rosterState\<close> is a JavaScript \<open>Map\<close>: an association list in insertion order,
  where \<open>set\<close> on a present key keeps its place. Profile ids are integers; an absent
  or falsy string field is the empty string.
\<close>

record roster_modal =
  affiliationOptions :: "string list"
  rosterState :: "(int \<times> roster_entry) list"
  candidateCache :: "candidate list"
  searchTerm :: string

definition initial_modal :: roster_modal where
  "initial_modal =
     \<lparr>affiliationOptions = AFFILIATION_DEFAULTS, rosterState = [], candidateCache = [],
      searchTerm = []\<rparr>"

text \<open>The server's answer to the initial load, and one of its members or candidates.\<close>

record member =
  mem_profile_id :: int
  mem_full_name :: string
  mem_aliases :: "string list"
  mem_affiliation :: string

record roster_data =
  affiliation_options :: "string list option"
  members :: "member list"

subsection \<open>normaliseAffiliation, hasChanges (lines 3171 to 3189)\<close>

definition normaliseAffiliation :: "string list \<Rightarrow> string \<Rightarrow> string" where
  "normaliseAffiliation options v =
     (if v \<in> set options then v
      else (case options of [] \<Rightarrow> ''Associate'' | opt # _ \<Rightarrow> if opt = [] then ''Associate'' else opt))"

fun hasChanges_loop :: "roster_entry list \<Rightarrow> bool" where
  "hasChanges_loop [] = False"
| "hasChanges_loop (entry # rest) =
     (if isNew entry \<and> \<not> isRemoved entry then True
      else if \<not> isNew entry \<and> isRemoved entry then True
      else if \<not> isNew entry \<and> \<not> isRemoved entry \<and> affiliation entry \<noteq> originalAffiliation entry
        then True
      else hasChanges_loop rest)"

definition hasChanges :: "roster_modal \<Rightarrow> bool" where
  "hasChanges m = hasChanges_loop (map snd (rosterState m))"

subsection \<open>applyInitialData, loadCandidates (lines 3261 to 3326)\<close>

definition initial_entry :: "string list \<Rightarrow> member \<Rightarrow> roster_entry" where
  "initial_entry options mem =
     (let cleanAff = normaliseAffiliation options (mem_affiliation mem)
      in \<lparr>profile_id = mem_profile_id mem,
          full_name = (if mem_full_name mem = [] then ''Unknown Operative'' else mem_full_name mem),
          aliases = mem_aliases mem,
          affiliation = cleanAff,
          originalAffiliation = cleanAff,
          isNew = False,
          isRemoved = False\<rparr>)"

definition applyInitialData :: "roster_data \<Rightarrow> roster_modal \<Rightarrow> roster_modal" where
  "applyInitialData data m =
     (let options =
            (case affiliation_options data of
               Some (opt # rest) \<Rightarrow> opt # rest
             | _ \<Rightarrow> AFFILIATION_DEFAULTS)
      in m\<lparr>affiliationOptions := options,
           rosterState :=
             fold (\<lambda>mem st. AList.update (mem_profile_id mem) (initial_entry options mem) st)
               (members data) [],
           candidateCache := [],
           searchTerm := []\<rparr>)"

definition candidate_of :: "string list \<Rightarrow> member \<Rightarrow> candidate" where
  "candidate_of options c =
     \<lparr>cand_profile_id = mem_profile_id c,
      cand_full_name = (if mem_full_name c = [] then ''Unknown Operative'' else mem_full_name c),
      cand_aliases = mem_aliases c,
      cand_affiliation =
        normaliseAffiliation options (if mem_affiliation c = [] then ''Associate'' else mem_affiliation c)\<rparr>"

text \<open>
  \<open>loadCandidates(term)\<close>. \<open>answer\<close> is what the request gave: \<open>None\<close> when
  \<open>api\<close> threw or the response was not ok, else \<open>data.candidates\<close> (the empty list
  when it is not an array). Candidates present and not removed are filtered out.
\<close>

definition loadCandidates :: "string \<Rightarrow> member list option \<Rightarrow> roster_modal \<Rightarrow> roster_modal" where
  "loadCandidates term answer m =
     (let m = m\<lparr>searchTerm := term\<rparr> in
      if term = [] then m\<lparr>candidateCache := []\<rparr>
      else
        (case answer of
           None \<Rightarrow> m
         | Some incoming \<Rightarrow>
             m\<lparr>candidateCache :=
                 filter
                   (\<lambda>c. case map_of (rosterState m) (cand_profile_id c) of
                          None \<Rightarrow> True
                        | Some existing \<Rightarrow> isRemoved existing)
                   (map (candidate_of (affiliationOptions m)) incoming)\<rparr>))"

subsection \<open>The handlers of the two lists (lines 3350 to 3418)\<close>

definition member_aff_change :: "int \<Rightarrow> string \<Rightarrow> roster_modal \<Rightarrow> roster_modal" where
  "member_aff_change profileId v m =
     (case map_of (rosterState m) profileId of
        None \<Rightarrow> m
      | Some entry \<Rightarrow>
          m\<lparr>rosterState := AList.update profileId (entry\<lparr>affiliation := v\<rparr>) (rosterState m)\<rparr>)"

definition member_remove_click :: "int \<Rightarrow> roster_modal \<Rightarrow> roster_modal" where
  "member_remove_click profileId m =
     (case map_of (rosterState m) profileId of
        None \<Rightarrow> m
      | Some entry \<Rightarrow>
          if isNew entry then m\<lparr>rosterState := AList.delete profileId (rosterState m)\<rparr>
          else m\<lparr>rosterState := AList.update profileId (entry\<lparr>isRemoved := True\<rparr>) (rosterState m)\<rparr>)"

text \<open>\<open>candidateCache.find(...)\<close> and the assignment to the candidate found.\<close>

fun set_first_affiliation :: "int \<Rightarrow> string \<Rightarrow> candidate list \<Rightarrow> candidate list" where
  "set_first_affiliation profileId v [] = []"
| "set_first_affiliation profileId v (c # cs) =
     (if cand_profile_id c = profileId then c\<lparr>cand_affiliation := v\<rparr> # cs
      else c # set_first_affiliation profileId v cs)"

definition candidate_aff_change :: "int \<Rightarrow> string \<Rightarrow> roster_modal \<Rightarrow> roster_modal" where
  "candidate_aff_change profileId v m =
     m\<lparr>candidateCache := set_first_affiliation profileId v (candidateCache m)\<rparr>"

text \<open>
  \<open>affSelect\<close> is the value of the select before the button, \<open>None\<close> when the button
  has no previous sibling.
\<close>

definition candidate_add_click :: "int \<Rightarrow> string option \<Rightarrow> roster_modal \<Rightarrow> roster_modal" where
  "candidate_add_click profileId affSelect m =
     (case find (\<lambda>c. cand_profile_id c = profileId) (candidateCache m) of
        None \<Rightarrow> m
      | Some cand \<Rightarrow>
          let fallback =
                (if cand_affiliation cand \<noteq> [] then cand_affiliation cand
                 else normaliseAffiliation (affiliationOptions m) ''Associate'');
              selectedAff =
                (case affSelect of
                   None \<Rightarrow> fallback
                 | Some v \<Rightarrow> if v \<noteq> [] then v else fallback)
          in if selectedAff = [] then m
             else
               let st =
                     (case map_of (rosterState m) profileId of
                        Some existing \<Rightarrow>
                          AList.update profileId
                            (existing\<lparr>isRemoved := False, affiliation := selectedAff\<rparr>) (rosterState m)
                      | None \<Rightarrow>
                          AList.update profileId
                            \<lparr>profile_id = profileId,
                             full_name = cand_full_name cand,
                             aliases = cand_aliases cand,
                             affiliation = selectedAff,
                             originalAffiliation = selectedAff,
                             isNew = True,
                             isRemoved = False\<rparr> (rosterState m))
               in m\<lparr>rosterState := st,
                    candidateCache := filter (\<lambda>c. cand_profile_id c \<noteq> profileId) (candidateCache m)\<rparr>)"


subsection \<open>The commit of the faction roster (lines 3420 to 3463)\<close>

record roster_diff =
  add :: "(int \<times> string) list"
  updates :: "(int \<times> string) list"
  remove :: "int list"

text \<open>The body of the loop of the save handler: one entry is pushed to at most one bucket.\<close>

definition diff_step :: "roster_entry \<Rightarrow> roster_diff \<Rightarrow> roster_diff" where
  "diff_step entry d =
     (if isNew entry \<and> \<not> isRemoved entry then
        d\<lparr>add := add d @ [(profile_id entry, affiliation entry)]\<rparr>
      else if isRemoved entry \<and> \<not> isNew entry then
        d\<lparr>remove := remove d @ [profile_id entry]\<rparr>
      else if affiliation entry \<noteq> originalAffiliation entry then
        d\<lparr>updates := updates d @ [(profile_id entry, affiliation entry)]\<rparr>
      else d)"

definition save_diff :: "roster_modal \<Rightarrow> roster_diff" where
  "save_diff m = fold diff_step (map snd (rosterState m)) \<lparr>add = [], updates = [], remove = []\<rparr>"

definition pair_json :: "int \<times> string \<Rightarrow> json" where
  "pair_json p = JObj [(''profile_id'', JNum (fst p)), (''affiliation'', JStr (snd p))]"

definition members_payload :: "roster_diff \<Rightarrow> json" where
  "members_payload d =
     JObj [(''add'', JArr (map pair_json (add d))),
           (''updates'', JArr (map pair_json (updates d))),
           (''remove'', JArr (map JNum (remove d)))]"

definition post :: "json \<Rightarrow> opts" where
  "post b = \<lparr>opts_method = ''POST'', opts_headers = [], opts_body = Some b\<rparr>"

text \<open>
  The click handler of the save button. \<open>factionId\<close> and \<open>operationId\<close> are the ids
  as the template strings print them. The button's own attributes are not modelled.
\<close>

definition members_save_click ::
  "(string \<Rightarrow> decoded option) \<Rightarrow> string \<Rightarrow> roster_modal \<Rightarrow> app_state \<Rightarrow> app_state" where
  "members_save_click parse factionId m s =
     (let d = save_diff m in
      if add d = [] \<and> updates d = [] \<and> remove d = [] then
        emit (ShowMessage ''No roster changes to save.'' ''info'') s
      else
        (case api parse (''/api/scales/factions/'' @ factionId @ ''/manage-members/'')
                (post (members_payload d)) s of
           (Inl e, s1) \<Rightarrow> emit (ShowMessage ''Failed to update roster.'' ''error'') s1
         | (Inr res, s1) \<Rightarrow>
             if \<not> ok res then emit (ShowMessage ''Failed to update roster.'' ''error'') s1
             else emit (OpenFactionDetail factionId)
                    (emit CloseModal (emit (ShowMessage ''Roster updated.'' ''info'') s1))))"

subsection \<open>What the user and the server can do to the roster dialog\<close>

datatype roster_action =
    Initial_data roster_data
  | Candidates_loaded string "member list option"
  | Member_aff_change int string
  | Member_remove_click int
  | Candidate_aff_change int string
  | Candidate_add_click int "string option"

fun roster_step :: "roster_action \<Rightarrow> roster_modal \<Rightarrow> roster_modal" where
  "roster_step (Initial_data data) m = applyInitialData data m"
| "roster_step (Candidates_loaded term answer) m = loadCandidates term answer m"
| "roster_step (Member_aff_change profileId v) m = member_aff_change profileId v m"
| "roster_step (Member_remove_click profileId) m = member_remove_click profileId m"
| "roster_step (Candidate_aff_change profileId v) m = candidate_aff_change profileId v m"
| "roster_step (Candidate_add_click profileId affSelect) m = candidate_add_click profileId affSelect m"

text \<open>The state of the dialog after a sequence of such actions, from its opening.\<close>

definition roster_after :: "roster_action list \<Rightarrow> roster_modal" where
  "roster_after acts = fold roster_step acts initial_modal"

subsection \<open>openManagePersonnelModal: the commit (lines 4912 to 4923)\<close>

record assignment =
  agent_id :: int
  "alias" :: string
  role_in_op :: string

record personnel_modal =
  assigned :: "(int \<times> assignment) list"

definition assignment_json :: "assignment \<Rightarrow> json" where
  "assignment_json a =
     JObj [(''agent_id'', JNum (agent_id a)), (''alias'', JStr (assignment.alias a)),
           (''role_in_op'', JStr (role_in_op a))]"

definition personnel_payload :: "personnel_modal \<Rightarrow> json" where
  "personnel_payload st = JObj [(''assignments'', JArr (map assignment_json (map snd (assigned st))))]"

text \<open>\<open>ShowErrorMessage e\<close> is \<open>showMessage(e.message, 'error')\<close> for a caught \<open>e\<close>.\<close>

definition personnel_save_click ::
  "(string \<Rightarrow> decoded option) \<Rightarrow> string \<Rightarrow> personnel_modal \<Rightarrow> app_state \<Rightarrow> app_state" where
  "personnel_save_click parse operationId st s =
     (case api parse (''/api/loom/operations/'' @ operationId @ ''/manage-personnel/'')
             (post (personnel_payload st)) s of
        (Inl e, s1) \<Rightarrow> emit (ShowErrorMessage e) s1
      | (Inr res, s1) \<Rightarrow>
          if \<not> ok res then emit (ShowErrorMessage (Error ''Failed to update personnel.'')) s1
          else emit (OpenLoomOperationDetail operationId)
                 (emit CloseModal (emit (ShowMessage ''Personnel roster updated.'' ''info'') s1)))"

subsection \<open>openManageTargetsModal: the commit (lines 5058 to 5080)\<close>

record target =
  target_id :: int
  target_name :: string
  target_type :: string

record targets_modal =
  assigned_targets :: "(string \<times> target) list"

record targets_ids =
  profile_ids :: "int list"
  faction_ids :: "int list"

definition targets_step :: "target \<Rightarrow> targets_ids \<Rightarrow> targets_ids" where
  "targets_step entry p =
     (if target_type entry = ''profile'' then p\<lparr>profile_ids := profile_ids p @ [target_id entry]\<rparr>
      else if target_type entry = ''faction'' then p\<lparr>faction_ids := faction_ids p @ [target_id entry]\<rparr>
      else p)"

definition targets_payload :: "targets_modal \<Rightarrow> json" where
  "targets_payload st =
     (let p = fold targets_step (map snd (assigned_targets st)) \<lparr>profile_ids = [], faction_ids = []\<rparr>
      in JObj [(''profile_ids'', JArr (map JNum (profile_ids p))),
               (''faction_ids'', JArr (map JNum (faction_ids p)))])"

definition targets_save_click ::
  "(string \<Rightarrow> decoded option) \<Rightarrow> string \<Rightarrow> targets_modal \<Rightarrow> app_state \<Rightarrow> app_state" where
  "targets_save_click parse operationId st s =
     (case api parse (''/api/loom/operations/'' @ operationId @ ''/manage-targets/'')
             (post (targets_payload st)) s of
        (Inl e, s1) \<Rightarrow> emit (ShowErrorMessage e) s1
      | (Inr res, s1) \<Rightarrow>
          if \<not> ok res then emit (ShowErrorMessage (Error ''Failed to update targets.'')) s1
          else emit (OpenLoomOperationDetail operationId)
                 (emit CloseModal (emit (ShowMessage ''Operation targets updated.'' ''info'') s1)))"

text \<open>The keys of a request body, in order.\<close>

fun object_keys :: "json \<Rightarrow> string list" where
  "object_keys (JObj kvs) = map fst kvs"
| "object_keys _ = []"

subsection \<open>Reading a trace\<close>

text \<open>The call sites of the requests of a trace, in order.\<close>

fun fetch_sites :: "event list \<Rightarrow> site list" where
  "fetch_sites [] = []"
| "fetch_sites (Fetch site req r # evs) = site # fetch_sites evs"
| "fetch_sites (e # evs) = fetch_sites evs"

text \<open>The retry was made and its response was not a 401.\<close>

fun retry_accepted :: "event \<Rightarrow> bool" where
  "retry_accepted (Fetch Retry_request req (Response res)) = (status res \<noteq> 401)"
| "retry_accepted e = False"

text \<open>A refresh response that carries a new access token.\<close>

fun gave_token :: "fetch_result \<Rightarrow> bool" where
  "gave_token NetworkError = False"
| "gave_token (Response rf) =
     (ok rf \<and> (case data_access (body rf) of Inl e \<Rightarrow> False | Inr a \<Rightarrow> a \<noteq> []))"

text \<open>The module's state when the script is loaded (lines 17, 29 and 281 to 286).\<close>

definition initial_state :: app_state where
  "initial_state =
     \<lparr>localStorage = Map.empty, sessionInvalidated = False,
      currentUser = \<lparr>role = [], username = [], display_name = []\<rparr>,
      factionDirectoryCache = empty_directory, clock = 0, timers = [], network = [], trace = []\<rparr>"


text \<open>
  The state of a tab that holds the two tokens in storage, before a network that will
  answer as scripted.
\<close>

definition session_with :: "string \<Rightarrow> string \<Rightarrow> (nat \<times> fetch_result) list \<Rightarrow> app_state" where
  "session_with a r script =
     setItem ''abx_refresh'' r (setItem ''abx_access'' a (initial_state\<lparr>network := script\<rparr>))"


text \<open>Three answers of the server: a 401, a refresh that gives a token, a faction list.\<close>

definition unauthorized :: fetch_result where
  "unauthorized = Response \<lparr>status = 401, body = Json_null\<rparr>"

definition new_token :: fetch_result where
  "new_token = Response \<lparr>status = 200, body = Json_object ''fresh''\<rparr>"

definition directory_answer :: "faction_item option list \<Rightarrow> fetch_result" where
  "directory_answer items = Response \<lparr>status = 200, body = Json_array items\<rparr>"

text \<open>What a call of \<open>handleUnauthorizedResponse\<close> adds to the trace.\<close>

definition hur_events :: "string \<Rightarrow> app_state \<Rightarrow> event list" where
  "hur_events msg s =
     (if sessionInvalidated s then []
      else [CloseModal, HideOverlay, SwitchTier ''login'', ShowMessage msg ''error''])"


subsection \<open>Reading a roster\<close>

text \<open>An entry is never both new and removed.\<close>

definition consistent_entry :: "roster_entry \<Rightarrow> bool" where
  "consistent_entry entry = (\<not> (isNew entry \<and> isRemoved entry))"

text \<open>\<open>rosterState.values()\<close>, and the invariant over them.\<close>

definition roster_values :: "roster_modal \<Rightarrow> roster_entry list" where
  "roster_values m = map snd (rosterState m)"

definition roster_consistent :: "roster_modal \<Rightarrow> bool" where
  "roster_consistent m = list_all consistent_entry (roster_values m)"

text \<open>Line 3438: \<open>!add.length && !updates.length && !remove.length\<close>\<close>

definition diff_empty :: "roster_diff \<Rightarrow> bool" where
  "diff_empty d = (add d = [] \<and> updates d = [] \<and> remove d = [])"

text \<open>A roster of one member, as the server sends it, for the examples.\<close>

definition member_one :: "string \<Rightarrow> member" where
  "member_one aff =
     \<lparr>mem_profile_id = 1, mem_full_name = ''Ada'', mem_aliases = [], mem_affiliation = aff\<rparr>"

definition baseline_one :: roster_data where
  "baseline_one = \<lparr>affiliation_options = None, members = [member_one ''Member'']\<rparr>"

text \<open>The loop of the save handler pushes the entry to one of its buckets.\<close>

definition reported :: "roster_entry \<Rightarrow> bool" where
  "reported entry =
     (isNew entry \<and> \<not> isRemoved entry \<or> isRemoved entry \<and> \<not> isNew entry
      \<or> affiliation entry \<noteq> originalAffiliation entry)"

subsection \<open>Reading a directory\<close>

text \<open>The items that \<open>list.forEach\<close> enters in the maps: not \<open>null\<close>, and named.\<close>

definition named_items :: "faction_item option list \<Rightarrow> faction_item list" where
  "named_items items =
     List.map_filter (\<lambda>item. case item of None \<Rightarrow> None
                              | Some it \<Rightarrow> if name it = [] then None else Some it) items"

text \<open>\<open>String(item?.name || '')\<close> for each item of the list.\<close>

definition labels :: "faction_item option list \<Rightarrow> string list" where
  "labels items = map (\<lambda>item. case item of None \<Rightarrow> [] | Some it \<Rightarrow> name it) items"

text \<open>A cached directory of one faction and an idle network, for the examples.\<close>

definition crows :: faction_item where
  "crows = \<lparr>id_key = ''1'', name = ''Crows''\<rparr>"

definition cached_session :: "(nat \<times> fetch_result) list \<Rightarrow> app_state" where
  "cached_session script =
     (session_with [] [] script)\<lparr>factionDirectoryCache := build_directory [Some crows] 0\<rparr>"

text \<open>A personnel dialog with one agent assigned, and a targets dialog with two targets.\<close>

definition one_agent :: personnel_modal where
  "one_agent = \<lparr>assigned = [(4, \<lparr>agent_id = 4, alias = ''Kite'', role_in_op = ''Field Agent''\<rparr>)]\<rparr>"

definition two_targets :: targets_modal where
  "two_targets =
     \<lparr>assigned_targets =
        [(''profile-2'', \<lparr>target_id = 2, target_name = ''Ada'', target_type = ''profile''\<rparr>),
         (''faction-1'', \<lparr>target_id = 1, target_name = ''Crows'', target_type = ''faction''\<rparr>)]\<rparr>"

definition accepted :: fetch_result where
  "accepted = Response \<lparr>status = 200, body = Json_object []\<rparr>"

definition server_error :: fetch_result where
  "server_error = Response \<lparr>status = 500, body = Unparseable\<rparr>"

text \<open>
  Two payload decoders for the instances. \<open>no_claims\<close> is for tokens that have no
  payload segment, so that nothing is decoded. \<open>payload_table\<close> is the graph of
  \<open>atob\<close>, \<open>decodeURIComponent\<close> and \<open>JSON.parse\<close> on three payload segments:
  \<open>eyJleHAiOjEwMH0\<close> is the base64 of \<open>{"exp":100}\<close>, \<open>eyJleHAiOjEwMC41fQ\<close>
  of \<open>{"exp":100.5}\<close>, and \<open>e30\<close> of \<open>{}\<close>, whose \<open>exp\<close> is undefined.
\<close>

definition no_claims :: "string \<Rightarrow> decoded option" where
  "no_claims b = None"

definition payload_table :: "string \<Rightarrow> decoded option" where
  "payload_table b =
     map_of [(''eyJleHAiOjEwMH0'', Claims (Some 100)),
             (''eyJleHAiOjEwMC41fQ'', Claims (Some (201 / 2))),
             (''e30'', Claims None)] b"

text \<open>The requests of a trace with their call sites and outcomes, in order.\<close>

fun fetches :: "event list \<Rightarrow> (site \<times> request \<times> fetch_result) list" where
  "fetches [] = []"
| "fetches (Fetch site req r # evs) = (site, req, r) # fetches evs"
| "fetches (e # evs) = fetches evs"

text \<open>
  The access token that a refresh response gives: \<open>data.access\<close> when the response is
  ok and its body has one, the empty string otherwise.
\<close>

definition token_of :: "fetch_result \<Rightarrow> string" where
  "token_of x =
     (case x of
        NetworkError \<Rightarrow> []
      | Response rf \<Rightarrow>
          if ok rf then (case data_access (body rf) of Inl e \<Rightarrow> [] | Inr a \<Rightarrow> a) else [])"

section \<open>Lemmas: the primitives, field by field\<close>

lemma getItem_updates [simp]:
  "getItem k (sessionInvalidated_update f1 s) = getItem k s"
  "getItem k (currentUser_update f2 s) = getItem k s"
  "getItem k (factionDirectoryCache_update f3 s) = getItem k s"
  "getItem k (clock_update f4 s) = getItem k s"
  "getItem k (timers_update f5 s) = getItem k s"
  "getItem k (network_update f6 s) = getItem k s"
  "getItem k (trace_update f7 s) = getItem k s"
  by (simp_all add: getItem_def)

lemma emit_simps [simp]:
  "trace (emit e s) = trace s @ [e]"
  "getItem k (emit e s) = getItem k s"
  "sessionInvalidated (emit e s) = sessionInvalidated s"
  "currentUser (emit e s) = currentUser s"
  "factionDirectoryCache (emit e s) = factionDirectoryCache s"
  "clock (emit e s) = clock s"
  "timers (emit e s) = timers s"
  "network (emit e s) = network s"
  by (simp_all add: emit_def)

lemma setItem_simps [simp]:
  "trace (setItem k v s) = trace s"
  "getItem k' (setItem k v s) = (if k' = k then Some v else getItem k' s)"
  "sessionInvalidated (setItem k v s) = sessionInvalidated s"
  "currentUser (setItem k v s) = currentUser s"
  "factionDirectoryCache (setItem k v s) = factionDirectoryCache s"
  "clock (setItem k v s) = clock s"
  "timers (setItem k v s) = timers s"
  "network (setItem k v s) = network s"
  by (simp_all add: setItem_def getItem_def)

lemma removeItem_simps [simp]:
  "trace (removeItem k s) = trace s"
  "getItem k' (removeItem k s) = (if k' = k then None else getItem k' s)"
  "sessionInvalidated (removeItem k s) = sessionInvalidated s"
  "currentUser (removeItem k s) = currentUser s"
  "factionDirectoryCache (removeItem k s) = factionDirectoryCache s"
  "clock (removeItem k s) = clock s"
  "timers (removeItem k s) = timers s"
  "network (removeItem k s) = network s"
  by (simp_all add: removeItem_def getItem_def)

lemma setTimeout_reset_simps [simp]:
  "trace (setTimeout_reset d s) = trace s"
  "getItem k (setTimeout_reset d s) = getItem k s"
  "sessionInvalidated (setTimeout_reset d s) = sessionInvalidated s"
  "currentUser (setTimeout_reset d s) = currentUser s"
  "factionDirectoryCache (setTimeout_reset d s) = factionDirectoryCache s"
  "clock (setTimeout_reset d s) = clock s"
  "timers (setTimeout_reset d s) = timers s @ [clock s + int d]"
  "network (setTimeout_reset d s) = network s"
  by (simp_all add: setTimeout_reset_def)

lemma invalidateFactionDirectory_simps [simp]:
  "trace (invalidateFactionDirectory s) = trace s"
  "getItem k (invalidateFactionDirectory s) = getItem k s"
  "sessionInvalidated (invalidateFactionDirectory s) = sessionInvalidated s"
  "currentUser (invalidateFactionDirectory s) = currentUser s"
  "factionDirectoryCache (invalidateFactionDirectory s) = empty_directory"
  "clock (invalidateFactionDirectory s) = clock s"
  "timers (invalidateFactionDirectory s) = timers s"
  "network (invalidateFactionDirectory s) = network s"
  by (simp_all add: invalidateFactionDirectory_def)

lemma advance_simps [simp]:
  "trace (advance d s) = trace s"
  "getItem k (advance d s) = getItem k s"
  "currentUser (advance d s) = currentUser s"
  "factionDirectoryCache (advance d s) = factionDirectoryCache s"
  "clock (advance d s) = clock s + int d"
  "timers (advance d s) = filter (\<lambda>due. \<not> due \<le> clock s + int d) (timers s)"
  "network (advance d s) = network s"
  by (simp_all add: advance_def Let_def)

lemma flag_advance:
  "sessionInvalidated (advance d s) =
     (sessionInvalidated s \<and> (\<forall>due \<in> set (timers s). clock s + int d < due))"
  by (auto simp add: advance_def Let_def filter_empty_conv not_le)

subsection \<open>handleUnauthorizedResponse\<close>

lemmas hur_defs = handleUnauthorizedResponse_def switchTier_def
  tokens_clear_def userStore_clear_def stateStore_del_def

lemma hur_noop: "sessionInvalidated s \<Longrightarrow> handleUnauthorizedResponse msg s = s"
  by (simp add: handleUnauthorizedResponse_def)

lemma hur_simps:
  "trace (handleUnauthorizedResponse msg s) =
     trace s @ (if sessionInvalidated s then []
                else [CloseModal, HideOverlay, SwitchTier ''login'', ShowMessage msg ''error''])"
  "sessionInvalidated (handleUnauthorizedResponse msg s)"
  "clock (handleUnauthorizedResponse msg s) = clock s"
  "network (handleUnauthorizedResponse msg s) = network s"
  "timers (handleUnauthorizedResponse msg s) =
     (if sessionInvalidated s then timers s else timers s @ [clock s + 1500])"
  by (simp_all add: hur_defs Let_def)

lemma hur_clears:
  assumes "\<not> sessionInvalidated s"
  shows "getItem ''abx_access'' (handleUnauthorizedResponse msg s) = None"
    and "getItem ''abx_refresh'' (handleUnauthorizedResponse msg s) = None"
    and "getItem ''abx_tier'' (handleUnauthorizedResponse msg s) = Some ([CHR 0x22] @ ''login'' @ [CHR 0x22])"
    and "factionDirectoryCache (handleUnauthorizedResponse msg s) = empty_directory"
    and "currentUser (handleUnauthorizedResponse msg s) = \<lparr>role = [], username = [], display_name = []\<rparr>"
  using assms by (simp_all add: hur_defs Let_def)


subsection \<open>Traces\<close>

lemma fetch_sites_append [simp]: "fetch_sites (xs @ ys) = fetch_sites xs @ fetch_sites ys"
  by (induction xs rule: fetch_sites.induct) simp_all

lemma events_since_append: "trace s' = trace s @ evs \<Longrightarrow> events_since s s' = evs"
  by (simp add: events_since_def)

lemma hur_events_plain [simp]:
  "fetch_sites (hur_events msg s) = []"
  "Called_handleUnauthorizedResponse \<notin> set (hur_events msg s)"
  "Fetch site req r \<notin> set (hur_events msg s)"
  "list_ex retry_accepted (hur_events msg s) = False"
  by (simp_all add: hur_events_def)

lemma call_simps [simp]:
  "trace (call_handleUnauthorizedResponse s) =
     trace s @ Called_handleUnauthorizedResponse # hur_events session_expired_message s"
  "sessionInvalidated (call_handleUnauthorizedResponse s)"
  "clock (call_handleUnauthorizedResponse s) = clock s"
  "network (call_handleUnauthorizedResponse s) = network s"
  by (simp_all add: call_handleUnauthorizedResponse_def hur_simps hur_events_def)

lemma fetchD:
  assumes "fetch site req s = (r, s1)"
  shows "trace s1 = trace s @ [Fetch site req r]
       \<and> tokens_access s1 = tokens_access s \<and> tokens_refresh s1 = tokens_refresh s
       \<and> factionDirectoryCache s1 = factionDirectoryCache s
       \<and> clock s \<le> clock s1"
  using assms
  by (auto simp add: fetch_def tokens_access_def tokens_refresh_def split: list.splits)

lemma set_tokens_access_simps [simp]:
  "trace (set_tokens_access a s) = trace s"
  "tokens_access (set_tokens_access a s) = a"
  "tokens_refresh (set_tokens_access a s) = tokens_refresh s"
  "factionDirectoryCache (set_tokens_access a s) = factionDirectoryCache s"
  "network (set_tokens_access a s) = network s"
  "clock (set_tokens_access a s) = clock s"
  by (simp_all add: set_tokens_access_def tokens_access_def tokens_refresh_def)

lemma tokens_advance [simp]:
  "tokens_access (advance d s) = tokens_access s"
  "tokens_refresh (advance d s) = tokens_refresh s"
  by (simp_all add: tokens_access_def tokens_refresh_def)

subsection \<open>The reactive path\<close>

lemma reactive_refresh_events:
  assumes "reactive_refresh path opts res s = (r, s')"
  shows "\<exists>evs. trace s' = trace s @ evs
           \<and> (\<exists>x. r = Inr x)
           \<and> fetch_sites evs \<in> {[], [Reactive_refresh], [Reactive_refresh, Retry_request]}
           \<and> (list_ex retry_accepted evs \<or> Called_handleUnauthorizedResponse \<in> set evs)
           \<and> (tokens_refresh s = [] \<longrightarrow> fetch_sites evs = [])
           \<and> (\<forall>q x. Fetch Reactive_refresh q x \<in> set evs \<and> \<not> gave_token x \<longrightarrow> fetch_sites evs = [Reactive_refresh])
           \<and> (\<forall>q x. Fetch Retry_request q x \<in> set evs \<longrightarrow>
                 url q = path \<and> method q = opts_method opts \<and> payload q = opts_body opts)"
  using assms
  by (auto simp add: reactive_refresh_def Let_def api_request_def
      split: if_splits prod.splits fetch_result.splits sum.splits dest!: fetchD)


subsection \<open>The proactive path\<close>

lemma refresh_before_request_events:
  assumes "refresh_before_request s = (r, s1)"
  shows "\<exists>evs. trace s1 = trace s @ evs
           \<and> fetch_sites evs \<in> {[], [Proactive_refresh]}
           \<and> (case r of
                 Inl e \<Rightarrow> Called_handleUnauthorizedResponse \<in> set evs
               | Inr a \<Rightarrow> Called_handleUnauthorizedResponse \<notin> set evs
                          \<and> tokens_refresh s1 = tokens_refresh s)
           \<and> \<not> list_ex retry_accepted evs
           \<and> (tokens_refresh s \<noteq> [] \<longrightarrow>
                 (\<exists>x rest. evs = Fetch Proactive_refresh (refresh_request s) x # rest))"
  using assms
  by (auto simp add: refresh_before_request_def
      split: if_splits prod.splits fetch_result.splits sum.splits dest!: fetchD)

lemma proactive_refresh_skip:
  "\<not> (tok \<noteq> [] \<and> token_expiring (decodeJwt parse tok) (clock s)) \<Longrightarrow>
     proactive_refresh parse tok s = (Inr tok, s)"
  by (auto simp add: proactive_refresh_def)

lemma proactive_refresh_due:
  "tok \<noteq> [] \<Longrightarrow> token_expiring (decodeJwt parse tok) (clock s) \<Longrightarrow>
     proactive_refresh parse tok s = refresh_before_request s"
  by (simp add: proactive_refresh_def)

lemma decodeJwt_empty [simp]: "decodeJwt parse [] = None"
  by (simp add: decodeJwt_def)

lemma proactive_refresh_events:
  assumes "proactive_refresh parse tok s = (r, s1)"
  shows "\<exists>evs. trace s1 = trace s @ evs
           \<and> fetch_sites evs \<in> {[], [Proactive_refresh]}
           \<and> (case r of
                 Inl e \<Rightarrow> Called_handleUnauthorizedResponse \<in> set evs
               | Inr a \<Rightarrow> Called_handleUnauthorizedResponse \<notin> set evs
                          \<and> tokens_refresh s1 = tokens_refresh s)
           \<and> \<not> list_ex retry_accepted evs"
proof (cases "tok \<noteq> [] \<and> token_expiring (decodeJwt parse tok) (clock s)")
  case True
  then have "refresh_before_request s = (r, s1)"
    using assms by (simp add: proactive_refresh_due)
  from refresh_before_request_events[OF this] show ?thesis by blast
next
  case False
  then have "r = Inr tok" "s1 = s"
    using assms by (simp_all add: proactive_refresh_skip)
  then show ?thesis by simp
qed


subsection \<open>The shape of a call of api\<close>

lemma fetch_in_sites: "Fetch site q x \<in> set evs \<Longrightarrow> site \<in> set (fetch_sites evs)"
  by (induction evs rule: fetch_sites.induct) auto

lemma api_shape:
  assumes "api parse path opts s = (r, s')"
  shows "\<exists>r1 s1. proactive_refresh parse (tokens_access s) s = (r1, s1) \<and>
           ((\<exists>e. r1 = Inl e \<and> r = Inl e \<and> s' = s1) \<or>
            (\<exists>tok x s2. r1 = Inr tok \<and>
                fetch Initial_request (api_request path opts (attach_token tok (request_headers opts))) s1 = (x, s2) \<and>
                ((x = NetworkError \<and> r = Inl Rejected \<and> s' = s2) \<or>
                 (\<exists>res. x = Response res \<and> status res \<noteq> 401 \<and> r = Inr res \<and> s' = s2) \<or>
                 (\<exists>res. x = Response res \<and> status res = 401 \<and> reactive_refresh path opts res s2 = (r, s')))))"
  using assms
  by (auto simp add: api_def split: prod.splits sum.splits fetch_result.splits if_splits)

text \<open>Everything a call of api adds to the trace, phase by phase.\<close>

lemma api_events:
  assumes "api parse path opts s = (r, s')"
  shows "\<exists>r1 s1 evs1 evs2.
           proactive_refresh parse (tokens_access s) s = (r1, s1) \<and>
           trace s1 = trace s @ evs1 \<and> trace s' = trace s @ evs1 @ evs2 \<and>
           fetch_sites evs1 \<in> {[], [Proactive_refresh]} \<and> \<not> list_ex retry_accepted evs1 \<and>
           (case r1 of
              Inl e \<Rightarrow> r = Inl e \<and> evs2 = [] \<and> Called_handleUnauthorizedResponse \<in> set evs1
            | Inr tok \<Rightarrow>
                Called_handleUnauthorizedResponse \<notin> set evs1 \<and> tokens_refresh s1 = tokens_refresh s \<and>
                (\<exists>x evs3.
                   evs2 = Fetch Initial_request (api_request path opts (attach_token tok (request_headers opts))) x # evs3 \<and>
                   (case x of
                      NetworkError \<Rightarrow> r = Inl Rejected \<and> evs3 = []
                    | Response res \<Rightarrow>
                        if status res \<noteq> 401 then r = Inr res \<and> evs3 = []
                        else (\<exists>y. r = Inr y)
                           \<and> fetch_sites evs3 \<in> {[], [Reactive_refresh], [Reactive_refresh, Retry_request]}
                           \<and> (list_ex retry_accepted evs3 \<or> Called_handleUnauthorizedResponse \<in> set evs3)
                           \<and> (tokens_refresh s = [] \<longrightarrow> fetch_sites evs3 = [])
                           \<and> (\<forall>q y. Fetch Reactive_refresh q y \<in> set evs3 \<and> \<not> gave_token y \<longrightarrow>
                                  fetch_sites evs3 = [Reactive_refresh])
                           \<and> (\<forall>q y. Fetch Retry_request q y \<in> set evs3 \<longrightarrow>
                                  url q = path \<and> method q = opts_method opts \<and> payload q = opts_body opts))))"
proof -
  from api_shape[OF assms] obtain r1 s1 where
    p: "proactive_refresh parse (tokens_access s) s = (r1, s1)" and
    sh: "(\<exists>e. r1 = Inl e \<and> r = Inl e \<and> s' = s1) \<or>
            (\<exists>tok x s2. r1 = Inr tok \<and>
                fetch Initial_request (api_request path opts (attach_token tok (request_headers opts))) s1 = (x, s2) \<and>
                ((x = NetworkError \<and> r = Inl Rejected \<and> s' = s2) \<or>
                 (\<exists>res. x = Response res \<and> status res \<noteq> 401 \<and> r = Inr res \<and> s' = s2) \<or>
                 (\<exists>res. x = Response res \<and> status res = 401 \<and> reactive_refresh path opts res s2 = (r, s'))))"
    by blast
  from proactive_refresh_events[OF p] obtain evs1 where
    e1: "trace s1 = trace s @ evs1" "fetch_sites evs1 \<in> {[], [Proactive_refresh]}"
        "case r1 of Inl e \<Rightarrow> Called_handleUnauthorizedResponse \<in> set evs1
         | Inr a \<Rightarrow> Called_handleUnauthorizedResponse \<notin> set evs1 \<and> tokens_refresh s1 = tokens_refresh s"
        "\<not> list_ex retry_accepted evs1"
    by blast
  from sh show ?thesis
  proof (elim disjE exE conjE)
    fix e assume "r1 = Inl e" "r = Inl e" "s' = s1"
    then show ?thesis
      apply - apply (rule exI[of _ r1], rule exI[of _ s1], rule exI[of _ evs1], rule exI[of _ "[]"])
      using p e1 by simp
  next
    fix tok x s2
    assume a: "r1 = Inr tok"
      "fetch Initial_request (api_request path opts (attach_token tok (request_headers opts))) s1 = (x, s2)"
      "x = NetworkError" "r = Inl Rejected" "s' = s2"
    show ?thesis
      apply (rule exI[of _ r1], rule exI[of _ s1], rule exI[of _ evs1],
          rule exI[of _ "[Fetch Initial_request (api_request path opts (attach_token tok (request_headers opts))) x]"])
      using fetchD[OF a(2)] a p e1 by simp
  next
    fix tok x s2 res
    assume a: "r1 = Inr tok"
      "fetch Initial_request (api_request path opts (attach_token tok (request_headers opts))) s1 = (x, s2)"
      "x = Response res" "status res \<noteq> 401" "r = Inr res" "s' = s2"
    show ?thesis
      apply (rule exI[of _ r1], rule exI[of _ s1], rule exI[of _ evs1],
          rule exI[of _ "[Fetch Initial_request (api_request path opts (attach_token tok (request_headers opts))) x]"])
      using fetchD[OF a(2)] a p e1 by simp
  next
    fix tok x s2 res
    assume a: "r1 = Inr tok"
      "fetch Initial_request (api_request path opts (attach_token tok (request_headers opts))) s1 = (x, s2)"
      "x = Response res" "status res = 401" "reactive_refresh path opts res s2 = (r, s')"
    from reactive_refresh_events[OF a(5)] obtain evs3 where
      e3: "trace s' = trace s2 @ evs3" "\<exists>y. r = Inr y"
          "fetch_sites evs3 \<in> {[], [Reactive_refresh], [Reactive_refresh, Retry_request]}"
          "list_ex retry_accepted evs3 \<or> Called_handleUnauthorizedResponse \<in> set evs3"
          "tokens_refresh s2 = [] \<longrightarrow> fetch_sites evs3 = []"
          "\<forall>q x. Fetch Reactive_refresh q x \<in> set evs3 \<and> \<not> gave_token x \<longrightarrow> fetch_sites evs3 = [Reactive_refresh]"
          "\<forall>q x. Fetch Retry_request q x \<in> set evs3 \<longrightarrow>
                 url q = path \<and> method q = opts_method opts \<and> payload q = opts_body opts"
      by blast
    from fetchD[OF a(2)] have f: "trace s2 = trace s1 @ [Fetch Initial_request (api_request path opts (attach_token tok (request_headers opts))) x]"
      "tokens_refresh s2 = tokens_refresh s1" by simp_all
    from e1(3) a(1) have tr: "tokens_refresh s1 = tokens_refresh s" "Called_handleUnauthorizedResponse \<notin> set evs1" by simp_all
    show ?thesis
      apply (rule exI[of _ r1], rule exI[of _ s1], rule exI[of _ evs1], rule exI[of _ "Fetch Initial_request (api_request path opts (attach_token tok (request_headers opts))) x # evs3"])
      using p e1(1,2,4) e3 f tr a(1,3,4) by simp
  qed
qed


subsection \<open>The requests of a call of api, exactly\<close>

lemma fetches_append [simp]: "fetches (xs @ ys) = fetches xs @ fetches ys"
  by (induction xs rule: fetches.induct) simp_all

lemma fetches_hur_events [simp]: "fetches (hur_events msg s) = []"
  by (simp add: hur_events_def)

lemma fetches_sites: "map fst (fetches evs) = fetch_sites evs"
  by (induction evs rule: fetches.induct) simp_all

lemma fetches_mem: "Fetch site q x \<in> set evs \<longleftrightarrow> (site, q, x) \<in> set (fetches evs)"
  by (induction evs rule: fetches.induct) auto

lemma gave_token_iff: "gave_token x \<longleftrightarrow> token_of x \<noteq> []"
  by (cases x) (auto simp add: token_of_def split: sum.splits)

lemma token_ofD:
  "token_of x \<noteq> [] \<Longrightarrow> \<exists>rf. x = Response rf \<and> ok rf \<and> body rf = Json_object (token_of x)"
  by (cases x) (auto simp add: token_of_def data_access_def split: body.splits if_splits)

lemma reactive_refresh_no_token:
  assumes "reactive_refresh path opts res s = (r, s')" and "tokens_refresh s = []"
  shows "\<exists>evs. trace s' = trace s @ evs \<and> fetches evs = []"
  using assms by (auto simp add: reactive_refresh_def)

lemma reactive_refresh_fetches:
  assumes "reactive_refresh path opts res s = (r, s')"
    and "tokens_refresh s \<noteq> []"
    and "fetch Reactive_refresh (refresh_request s) s = (x, s1)"
  shows "\<exists>evs. trace s' = trace s @ evs \<and>
           (if token_of x = [] then fetches evs = [(Reactive_refresh, refresh_request s, x)]
            else \<exists>y. fetches evs =
                   [(Reactive_refresh, refresh_request s, x),
                    (Retry_request,
                     api_request path opts
                       (AList.update ''Authorization'' (''Bearer '' @ token_of x) (request_headers opts)), y)])"
  using assms
  by (auto simp add: reactive_refresh_def Let_def token_of_def
      split: if_splits prod.splits fetch_result.splits sum.splits
      dest!: fetchD)

lemma refresh_before_request_no_token:
  assumes "refresh_before_request s = (r, s1)" and "tokens_refresh s = []"
  shows "\<exists>evs. trace s1 = trace s @ evs \<and> fetches evs = [] \<and> isl r"
  using assms by (auto simp add: refresh_before_request_def)


lemma refresh_request_cong:
  "tokens_refresh a = tokens_refresh b \<Longrightarrow> refresh_request a = refresh_request b"
  by (simp add: refresh_request_def)

lemma api_fetches:
  assumes "api parse path opts s = (r, s')"
  shows "\<exists>r1 s1 evs1 evs2.
           proactive_refresh parse (tokens_access s) s = (r1, s1) \<and>
           trace s1 = trace s @ evs1 \<and> trace s' = trace s @ evs1 @ evs2 \<and>
           (case r1 of
              Inl e \<Rightarrow> evs2 = []
            | Inr tok \<Rightarrow>
                \<exists>x tail.
                  fetches evs2 =
                    (Initial_request, api_request path opts (attach_token tok (request_headers opts)), x) # tail \<and>
                  (if \<exists>res. x = Response res \<and> status res = 401 then
                     if tokens_refresh s = [] then tail = []
                     else \<exists>y. if token_of y = [] then tail = [(Reactive_refresh, refresh_request s, y)]
                              else \<exists>z. tail =
                                     [(Reactive_refresh, refresh_request s, y),
                                      (Retry_request,
                                       api_request path opts
                                         (AList.update ''Authorization'' (''Bearer '' @ token_of y)
                                            (request_headers opts)), z)]
                   else tail = []))"
proof -
  from api_shape[OF assms] obtain r1 s1 where
    p: "proactive_refresh parse (tokens_access s) s = (r1, s1)" and
    sh: "(\<exists>e. r1 = Inl e \<and> r = Inl e \<and> s' = s1) \<or>
            (\<exists>tok x s2. r1 = Inr tok \<and>
                fetch Initial_request (api_request path opts (attach_token tok (request_headers opts))) s1 = (x, s2) \<and>
                ((x = NetworkError \<and> r = Inl Rejected \<and> s' = s2) \<or>
                 (\<exists>res. x = Response res \<and> status res \<noteq> 401 \<and> r = Inr res \<and> s' = s2) \<or>
                 (\<exists>res. x = Response res \<and> status res = 401 \<and> reactive_refresh path opts res s2 = (r, s'))))"
    by blast
  from proactive_refresh_events[OF p] obtain evs1 where
    e1: "trace s1 = trace s @ evs1"
        "case r1 of Inl e \<Rightarrow> Called_handleUnauthorizedResponse \<in> set evs1
         | Inr a \<Rightarrow> Called_handleUnauthorizedResponse \<notin> set evs1 \<and> tokens_refresh s1 = tokens_refresh s"
    by blast
  from sh show ?thesis
  proof (elim disjE exE conjE)
    fix e assume "r1 = Inl e" "r = Inl e" "s' = s1"
    then show ?thesis
      apply - apply (rule exI[of _ r1], rule exI[of _ s1], rule exI[of _ evs1], rule exI[of _ "[]"])
      using p e1 by simp
  next
    fix tok x s2
    assume a: "r1 = Inr tok"
      "fetch Initial_request (api_request path opts (attach_token tok (request_headers opts))) s1 = (x, s2)"
      "x = NetworkError" "r = Inl Rejected" "s' = s2"
    show ?thesis
      apply (rule exI[of _ r1], rule exI[of _ s1], rule exI[of _ evs1],
          rule exI[of _ "[Fetch Initial_request (api_request path opts (attach_token tok (request_headers opts))) x]"])
      using fetchD[OF a(2)] a p e1 by simp
  next
    fix tok x s2 res
    assume a: "r1 = Inr tok"
      "fetch Initial_request (api_request path opts (attach_token tok (request_headers opts))) s1 = (x, s2)"
      "x = Response res" "status res \<noteq> 401" "r = Inr res" "s' = s2"
    show ?thesis
      apply (rule exI[of _ r1], rule exI[of _ s1], rule exI[of _ evs1],
          rule exI[of _ "[Fetch Initial_request (api_request path opts (attach_token tok (request_headers opts))) x]"])
      using fetchD[OF a(2)] a p e1 by simp
  next
    fix tok x s2 res
    assume a: "r1 = Inr tok"
      "fetch Initial_request (api_request path opts (attach_token tok (request_headers opts))) s1 = (x, s2)"
      "x = Response res" "status res = 401" "reactive_refresh path opts res s2 = (r, s')"
    from fetchD[OF a(2)] have f:
      "trace s2 = trace s1 @ [Fetch Initial_request (api_request path opts (attach_token tok (request_headers opts))) x]"
      "tokens_refresh s2 = tokens_refresh s1" by simp_all
    from e1(2) a(1) have tr: "tokens_refresh s1 = tokens_refresh s" by simp
    with f have tr2: "tokens_refresh s2 = tokens_refresh s" by simp
    then have rq: "refresh_request s2 = refresh_request s" by (rule refresh_request_cong)
    have "\<exists>evs3. trace s' = trace s2 @ evs3 \<and>
           (if tokens_refresh s = [] then fetches evs3 = []
            else \<exists>y. if token_of y = [] then fetches evs3 = [(Reactive_refresh, refresh_request s, y)]
                     else \<exists>z. fetches evs3 =
                            [(Reactive_refresh, refresh_request s, y),
                             (Retry_request,
                              api_request path opts
                                (AList.update ''Authorization'' (''Bearer '' @ token_of y)
                                   (request_headers opts)), z)])"
    proof (cases "tokens_refresh s = []")
      case True
      with reactive_refresh_no_token[OF a(5)] tr2 show ?thesis by simp
    next
      case False
      obtain y s3 where fy: "fetch Reactive_refresh (refresh_request s2) s2 = (y, s3)"
        by fastforce
      from reactive_refresh_fetches[OF a(5) _ fy] False tr2 obtain evs3 where
        t3: "trace s' = trace s2 @ evs3" and
        c3: "if token_of y = [] then fetches evs3 = [(Reactive_refresh, refresh_request s2, y)]
             else \<exists>z. fetches evs3 =
                    [(Reactive_refresh, refresh_request s2, y),
                     (Retry_request,
                      api_request path opts
                        (AList.update ''Authorization'' (''Bearer '' @ token_of y)
                           (request_headers opts)), z)]"
        by auto
      show ?thesis
        apply (rule exI[of _ evs3])
        using False t3 apply simp
        apply (rule exI[of _ y])
        using c3 rq by auto
    qed
    then obtain evs3 where
      e3: "trace s' = trace s2 @ evs3"
          "if tokens_refresh s = [] then fetches evs3 = []
            else \<exists>y. if token_of y = [] then fetches evs3 = [(Reactive_refresh, refresh_request s, y)]
                     else \<exists>z. fetches evs3 =
                            [(Reactive_refresh, refresh_request s, y),
                             (Retry_request,
                              api_request path opts
                                (AList.update ''Authorization'' (''Bearer '' @ token_of y)
                                   (request_headers opts)), z)]"
      by blast
    show ?thesis
      apply (rule exI[of _ r1], rule exI[of _ s1], rule exI[of _ evs1],
          rule exI[of _ "Fetch Initial_request (api_request path opts (attach_token tok (request_headers opts))) x # evs3"])
      using p e1(1) e3 f a(1,3,4) by simp
  qed
qed


subsection \<open>After a 401\<close>

lemma api_after_401:
  assumes "api parse path opts s = (r, s')"
    and "Fetch Initial_request req (Response res) \<in> set (events_since s s')"
    and "status res = 401"
  shows "(\<exists>y. r = Inr y) \<and>
     count_list (fetch_sites (events_since s s')) Initial_request = 1 \<and>
     count_list (fetch_sites (events_since s s')) Reactive_refresh \<le> 1 \<and>
     count_list (fetch_sites (events_since s s')) Retry_request \<le> 1 \<and>
     (\<forall>q y. Fetch Retry_request q y \<in> set (events_since s s') \<longrightarrow>
        url q = path \<and> method q = opts_method opts \<and> payload q = opts_body opts) \<and>
     (\<not> list_ex retry_accepted (events_since s s') \<longrightarrow>
        Called_handleUnauthorizedResponse \<in> set (events_since s s')) \<and>
     (tokens_refresh s = [] \<longrightarrow>
        Reactive_refresh \<notin> set (fetch_sites (events_since s s')) \<and>
        Retry_request \<notin> set (fetch_sites (events_since s s'))) \<and>
     (\<forall>q y. Fetch Reactive_refresh q y \<in> set (events_since s s') \<and> \<not> gave_token y \<longrightarrow>
        Retry_request \<notin> set (fetch_sites (events_since s s')))"
proof -
  from api_events[OF assms(1)] obtain r1 s1 evs1 evs2 where
    t: "trace s' = trace s @ evs1 @ evs2" and
    e1: "fetch_sites evs1 \<in> {[], [Proactive_refresh]}" "\<not> list_ex retry_accepted evs1" and
    c: "case r1 of
              Inl e \<Rightarrow> r = Inl e \<and> evs2 = [] \<and> Called_handleUnauthorizedResponse \<in> set evs1
            | Inr tok \<Rightarrow>
                Called_handleUnauthorizedResponse \<notin> set evs1 \<and> tokens_refresh s1 = tokens_refresh s \<and>
                (\<exists>x evs3.
                   evs2 = Fetch Initial_request (api_request path opts (attach_token tok (request_headers opts))) x # evs3 \<and>
                   (case x of
                      NetworkError \<Rightarrow> r = Inl Rejected \<and> evs3 = []
                    | Response res \<Rightarrow>
                        if status res \<noteq> 401 then r = Inr res \<and> evs3 = []
                        else (\<exists>y. r = Inr y)
                           \<and> fetch_sites evs3 \<in> {[], [Reactive_refresh], [Reactive_refresh, Retry_request]}
                           \<and> (list_ex retry_accepted evs3 \<or> Called_handleUnauthorizedResponse \<in> set evs3)
                           \<and> (tokens_refresh s = [] \<longrightarrow> fetch_sites evs3 = [])
                           \<and> (\<forall>q y. Fetch Reactive_refresh q y \<in> set evs3 \<and> \<not> gave_token y \<longrightarrow>
                                  fetch_sites evs3 = [Reactive_refresh])
                           \<and> (\<forall>q y. Fetch Retry_request q y \<in> set evs3 \<longrightarrow>
                                  url q = path \<and> method q = opts_method opts \<and> payload q = opts_body opts)))"
    by blast
  have ev: "events_since s s' = evs1 @ evs2"
    using t by (simp add: events_since_def)
  have n1: "Fetch Initial_request req (Response res) \<notin> set evs1"
    using e1(1) fetch_in_sites[of Initial_request req "Response res" evs1] by auto
  have n1': "\<And>q y. Fetch Retry_request q y \<notin> set evs1" "\<And>q y. Fetch Reactive_refresh q y \<notin> set evs1"
    using e1(1) fetch_in_sites[of Retry_request _ _ evs1] fetch_in_sites[of Reactive_refresh _ _ evs1] by auto
  show ?thesis
  proof (cases r1)
    case (Inl e)
    with c have "evs2 = []" by simp
    with assms(2) ev n1 show ?thesis by simp
  next
    case (Inr tok)
    with c obtain x evs3 where
      e2: "evs2 = Fetch Initial_request (api_request path opts (attach_token tok (request_headers opts))) x # evs3" and
      cx: "case x of
                      NetworkError \<Rightarrow> r = Inl Rejected \<and> evs3 = []
                    | Response res \<Rightarrow>
                        if status res \<noteq> 401 then r = Inr res \<and> evs3 = []
                        else (\<exists>y. r = Inr y)
                           \<and> fetch_sites evs3 \<in> {[], [Reactive_refresh], [Reactive_refresh, Retry_request]}
                           \<and> (list_ex retry_accepted evs3 \<or> Called_handleUnauthorizedResponse \<in> set evs3)
                           \<and> (tokens_refresh s = [] \<longrightarrow> fetch_sites evs3 = [])
                           \<and> (\<forall>q y. Fetch Reactive_refresh q y \<in> set evs3 \<and> \<not> gave_token y \<longrightarrow>
                                  fetch_sites evs3 = [Reactive_refresh])
                           \<and> (\<forall>q y. Fetch Retry_request q y \<in> set evs3 \<longrightarrow>
                                  url q = path \<and> method q = opts_method opts \<and> payload q = opts_body opts)"
      by auto
    have n3: "x = Response res"
    proof (rule ccontr)
      assume nx: "x \<noteq> Response res"
      then have "Fetch Initial_request req (Response res) \<in> set evs3"
        using assms(2) ev n1 e2 by auto
      then have i3: "Initial_request \<in> set (fetch_sites evs3)" by (rule fetch_in_sites)
      show False
      proof (cases x)
        case NetworkError
        with cx i3 show False by simp
      next
        case (Response res')
        with cx i3 show False by (auto split: if_splits)
      qed
    qed
    with cx assms(3) have p3:
      "\<exists>y. r = Inr y"
      "fetch_sites evs3 \<in> {[], [Reactive_refresh], [Reactive_refresh, Retry_request]}"
      "list_ex retry_accepted evs3 \<or> Called_handleUnauthorizedResponse \<in> set evs3"
      "tokens_refresh s = [] \<longrightarrow> fetch_sites evs3 = []"
      "\<forall>q y. Fetch Reactive_refresh q y \<in> set evs3 \<and> \<not> gave_token y \<longrightarrow> fetch_sites evs3 = [Reactive_refresh]"
      "\<forall>q y. Fetch Retry_request q y \<in> set evs3 \<longrightarrow>
          url q = path \<and> method q = opts_method opts \<and> payload q = opts_body opts"
      by simp_all
    have sites: "fetch_sites (events_since s s') = fetch_sites evs1 @ Initial_request # fetch_sites evs3"
      using ev e2 by simp
    have mem: "set (events_since s s') = set evs1 \<union> {Fetch Initial_request (api_request path opts (attach_token tok (request_headers opts))) x} \<union> set evs3"
      using ev e2 by auto
    have c1: "count_list (fetch_sites (events_since s s')) Initial_request = 1
        \<and> count_list (fetch_sites (events_since s s')) Reactive_refresh \<le> 1
        \<and> count_list (fetch_sites (events_since s s')) Retry_request \<le> 1"
      using sites e1(1) p3(2) by auto
    have c2: "tokens_refresh s = [] \<longrightarrow>
        Reactive_refresh \<notin> set (fetch_sites (events_since s s')) \<and>
        Retry_request \<notin> set (fetch_sites (events_since s s'))"
      using sites e1(1) p3(4) by auto
    have c3: "\<forall>q y. Fetch Reactive_refresh q y \<in> set (events_since s s') \<and> \<not> gave_token y \<longrightarrow>
        Retry_request \<notin> set (fetch_sites (events_since s s'))"
      using sites mem e1(1) p3(5) n1'(2) by auto
    have c4: "\<forall>q y. Fetch Retry_request q y \<in> set (events_since s s') \<longrightarrow>
        url q = path \<and> method q = opts_method opts \<and> payload q = opts_body opts"
      using mem p3(6) n1'(1) by auto
    have c5: "\<not> list_ex retry_accepted (events_since s s') \<longrightarrow>
        Called_handleUnauthorizedResponse \<in> set (events_since s s')"
      using ev e2 p3(3) by auto
    from p3(1) c1 c2 c3 c4 c5 show ?thesis by blast
  qed
qed


lemma refresh_request_fields:
  "url (refresh_request s) = ''/api/auth/token/refresh/''"
  "method (refresh_request s) = ''POST''"
  "headers (refresh_request s) = [(''Content-Type'', ''application/json'')]"
  "payload (refresh_request s) = Some (JObj [(''refresh'', JStr (tokens_refresh s))])"
  by (simp_all add: refresh_request_def)

lemma retry_request_fields:
  "url (api_request path opts (AList.update ''Authorization'' (''Bearer '' @ a) hs)) = path"
  "method (api_request path opts (AList.update ''Authorization'' (''Bearer '' @ a) hs)) = opts_method opts"
  "payload (api_request path opts (AList.update ''Authorization'' (''Bearer '' @ a) hs)) = opts_body opts"
  "map_of (headers (api_request path opts (AList.update ''Authorization'' (''Bearer '' @ a) hs))) ''Authorization''
     = Some (''Bearer '' @ a)"
  by (simp_all add: api_request_def AList.update_conv')

lemma fetches_of_sites:
  "fetch_sites evs \<in> {[], [Proactive_refresh]} \<Longrightarrow>
     fetches evs = [] \<or> (\<exists>q x. fetches evs = [(Proactive_refresh, q, x)])"
  using fetches_sites[of evs] by (cases "fetches evs") auto

text \<open>The requests that follow a first response with status 401.\<close>

lemma api_after_401_fetches:
  assumes "api parse path opts s = (r, s')"
    and "Fetch Initial_request req (Response res) \<in> set (events_since s s')"
    and "status res = 401"
  shows "\<exists>pre tail.
     fetches (events_since s s') = pre @ (Initial_request, req, Response res) # tail \<and>
     (pre = [] \<or> (\<exists>q0 x0. pre = [(Proactive_refresh, q0, x0)])) \<and>
     url req = path \<and> method req = opts_method opts \<and> payload req = opts_body opts \<and>
     (if tokens_refresh s = [] then tail = []
      else \<exists>y. if token_of y = [] then tail = [(Reactive_refresh, refresh_request s, y)]
               else \<exists>z. tail =
                      [(Reactive_refresh, refresh_request s, y),
                       (Retry_request,
                        api_request path opts
                          (AList.update ''Authorization'' (''Bearer '' @ token_of y)
                             (request_headers opts)), z)])"
proof -
  from api_fetches[OF assms(1)] obtain r1 s1 evs1 evs2 where
    p: "proactive_refresh parse (tokens_access s) s = (r1, s1)" and
    t: "trace s1 = trace s @ evs1" "trace s' = trace s @ evs1 @ evs2" and
    c: "case r1 of
              Inl e \<Rightarrow> evs2 = []
            | Inr tok \<Rightarrow>
                \<exists>x tail.
                  fetches evs2 =
                    (Initial_request, api_request path opts (attach_token tok (request_headers opts)), x) # tail \<and>
                  (if \<exists>res. x = Response res \<and> status res = 401 then
                     if tokens_refresh s = [] then tail = []
                     else \<exists>y. if token_of y = [] then tail = [(Reactive_refresh, refresh_request s, y)]
                              else \<exists>z. tail =
                                     [(Reactive_refresh, refresh_request s, y),
                                      (Retry_request,
                                       api_request path opts
                                         (AList.update ''Authorization'' (''Bearer '' @ token_of y)
                                            (request_headers opts)), z)]
                   else tail = [])"
    by blast
  from proactive_refresh_events[OF p] t(1) have s1: "fetch_sites evs1 \<in> {[], [Proactive_refresh]}"
    by auto
  then have pre: "fetches evs1 = [] \<or> (\<exists>q x. fetches evs1 = [(Proactive_refresh, q, x)])"
    by (rule fetches_of_sites)
  have ev: "events_since s s' = evs1 @ evs2"
    using t by (simp add: events_since_def)
  from assms(2) have mem: "(Initial_request, req, Response res) \<in> set (fetches evs1) \<union> set (fetches evs2)"
    by (simp add: ev fetches_mem)
  from pre have n1: "(Initial_request, req, Response res) \<notin> set (fetches evs1)"
    by auto
  with mem have m2: "(Initial_request, req, Response res) \<in> set (fetches evs2)" by simp
  show ?thesis
  proof (cases r1)
    case (Inl e)
    with c m2 show ?thesis by simp
  next
    case (Inr tok)
    with c obtain x tail where
      f2: "fetches evs2 =
             (Initial_request, api_request path opts (attach_token tok (request_headers opts)), x) # tail" and
      cx: "if \<exists>res. x = Response res \<and> status res = 401 then
                     if tokens_refresh s = [] then tail = []
                     else \<exists>y. if token_of y = [] then tail = [(Reactive_refresh, refresh_request s, y)]
                              else \<exists>z. tail =
                                     [(Reactive_refresh, refresh_request s, y),
                                      (Retry_request,
                                       api_request path opts
                                         (AList.update ''Authorization'' (''Bearer '' @ token_of y)
                                            (request_headers opts)), z)]
                   else tail = []"
      by auto
    have nt: "(Initial_request, req, Response res) \<notin> set tail"
      using cx by (auto split: if_splits)
    with m2 f2 have hd: "req = api_request path opts (attach_token tok (request_headers opts))" "x = Response res"
      by auto
    with cx assms(3) have ct:
      "if tokens_refresh s = [] then tail = []
       else \<exists>y. if token_of y = [] then tail = [(Reactive_refresh, refresh_request s, y)]
                else \<exists>z. tail =
                       [(Reactive_refresh, refresh_request s, y),
                        (Retry_request,
                         api_request path opts
                           (AList.update ''Authorization'' (''Bearer '' @ token_of y)
                              (request_headers opts)), z)]"
      by auto
    have rq: "url req = path \<and> method req = opts_method opts \<and> payload req = opts_body opts"
      using hd(1) by (simp add: api_request_def)
    have fe: "fetches (events_since s s') = fetches evs1 @ (Initial_request, req, Response res) # tail"
      using ev f2 hd by simp
    show ?thesis
      apply (rule exI[of _ "fetches evs1"], rule exI[of _ tail])
      using fe pre rq ct by simp
  qed
qed

section \<open>Claims about the session\<close>

text \<open>
  C3. A call of api whose first response is a 401 never throws; it issues the request
  once, at most one refresh and at most one retry, and the retry is the original request
  (same path, method and body). Unless that retry came back with a status other than 401,
  handleUnauthorizedResponse is called: so it is when the retry is a 401 again, when the
  refresh fails, and when there is no refresh token. Without a refresh token no refresh
  and no retry is sent, and after a refresh that gives no token no retry is sent.

  The requests of the call, in order, are: at most one proactive refresh; the request,
  answered 401; then nothing when no refresh token is stored, else one refresh call
  (POST /api/auth/token/refresh/ with the stored refresh token as body); and, only when
  that refresh answered ok with an access token, one retry of the request with
  Authorization set to Bearer and that new token. No retry is sent without such a refresh
  before it.
\<close>

theorem api_retries_at_most_once:
  assumes "api parse path opts s = (r, s')"
    and "Fetch Initial_request req (Response res) \<in> set (events_since s s')"
    and "status res = 401"
  shows "((\<exists>y. r = Inr y) \<and>
     count_list (fetch_sites (events_since s s')) Initial_request = 1 \<and>
     count_list (fetch_sites (events_since s s')) Reactive_refresh \<le> 1 \<and>
     count_list (fetch_sites (events_since s s')) Retry_request \<le> 1 \<and>
     (\<forall>q y. Fetch Retry_request q y \<in> set (events_since s s') \<longrightarrow>
        url q = path \<and> method q = opts_method opts \<and> payload q = opts_body opts) \<and>
     (\<not> list_ex retry_accepted (events_since s s') \<longrightarrow>
        Called_handleUnauthorizedResponse \<in> set (events_since s s')) \<and>
     (tokens_refresh s = [] \<longrightarrow>
        Reactive_refresh \<notin> set (fetch_sites (events_since s s')) \<and>
        Retry_request \<notin> set (fetch_sites (events_since s s'))) \<and>
     (\<forall>q y. Fetch Reactive_refresh q y \<in> set (events_since s s') \<and> \<not> gave_token y \<longrightarrow>
        Retry_request \<notin> set (fetch_sites (events_since s s')))) \<and>
   (\<exists>pre tail.
      fetches (events_since s s') = pre @ (Initial_request, req, Response res) # tail \<and>
      (pre = [] \<or> (\<exists>q0 x0. pre = [(Proactive_refresh, q0, x0)])) \<and>
      url req = path \<and> method req = opts_method opts \<and> payload req = opts_body opts \<and>
      (if tokens_refresh s = [] then tail = []
       else \<exists>qr y.
          url qr = ''/api/auth/token/refresh/'' \<and> method qr = ''POST'' \<and>
          headers qr = [(''Content-Type'', ''application/json'')] \<and>
          payload qr = Some (JObj [(''refresh'', JStr (tokens_refresh s))]) \<and>
          ((\<forall>rf a. y = Response rf \<and> ok rf \<longrightarrow> body rf \<noteq> Json_object a \<or> a = []) \<longrightarrow>
             tail = [(Reactive_refresh, qr, y)]) \<and>
          (\<forall>rf a. y = Response rf \<and> ok rf \<and> body rf = Json_object a \<and> a \<noteq> [] \<longrightarrow>
             (\<exists>q z. tail = [(Reactive_refresh, qr, y), (Retry_request, q, z)] \<and>
                url q = path \<and> method q = opts_method opts \<and> payload q = opts_body opts \<and>
                map_of (headers q) ''Authorization'' = Some (''Bearer '' @ a)))))"
proof (rule conjI)
  show "(\<exists>y. r = Inr y) \<and>
     count_list (fetch_sites (events_since s s')) Initial_request = 1 \<and>
     count_list (fetch_sites (events_since s s')) Reactive_refresh \<le> 1 \<and>
     count_list (fetch_sites (events_since s s')) Retry_request \<le> 1 \<and>
     (\<forall>q y. Fetch Retry_request q y \<in> set (events_since s s') \<longrightarrow>
        url q = path \<and> method q = opts_method opts \<and> payload q = opts_body opts) \<and>
     (\<not> list_ex retry_accepted (events_since s s') \<longrightarrow>
        Called_handleUnauthorizedResponse \<in> set (events_since s s')) \<and>
     (tokens_refresh s = [] \<longrightarrow>
        Reactive_refresh \<notin> set (fetch_sites (events_since s s')) \<and>
        Retry_request \<notin> set (fetch_sites (events_since s s'))) \<and>
     (\<forall>q y. Fetch Reactive_refresh q y \<in> set (events_since s s') \<and> \<not> gave_token y \<longrightarrow>
        Retry_request \<notin> set (fetch_sites (events_since s s')))"
    by (rule api_after_401[OF assms])
next
  from api_after_401_fetches[OF assms] obtain pre tail where
    f: "fetches (events_since s s') = pre @ (Initial_request, req, Response res) # tail" and
    pr: "pre = [] \<or> (\<exists>q0 x0. pre = [(Proactive_refresh, q0, x0)])" and
    rq: "url req = path \<and> method req = opts_method opts \<and> payload req = opts_body opts" and
    ct: "if tokens_refresh s = [] then tail = []
      else \<exists>y. if token_of y = [] then tail = [(Reactive_refresh, refresh_request s, y)]
               else \<exists>z. tail =
                      [(Reactive_refresh, refresh_request s, y),
                       (Retry_request,
                        api_request path opts
                          (AList.update ''Authorization'' (''Bearer '' @ token_of y)
                             (request_headers opts)), z)]"
    by blast
  have tl: "if tokens_refresh s = [] then tail = []
       else \<exists>qr y.
          url qr = ''/api/auth/token/refresh/'' \<and> method qr = ''POST'' \<and>
          headers qr = [(''Content-Type'', ''application/json'')] \<and>
          payload qr = Some (JObj [(''refresh'', JStr (tokens_refresh s))]) \<and>
          ((\<forall>rf a. y = Response rf \<and> ok rf \<longrightarrow> body rf \<noteq> Json_object a \<or> a = []) \<longrightarrow>
             tail = [(Reactive_refresh, qr, y)]) \<and>
          (\<forall>rf a. y = Response rf \<and> ok rf \<and> body rf = Json_object a \<and> a \<noteq> [] \<longrightarrow>
             (\<exists>q z. tail = [(Reactive_refresh, qr, y), (Retry_request, q, z)] \<and>
                url q = path \<and> method q = opts_method opts \<and> payload q = opts_body opts \<and>
                map_of (headers q) ''Authorization'' = Some (''Bearer '' @ a)))"
  proof (cases "tokens_refresh s = []")
    case True
    with ct show ?thesis by simp
  next
    case False
    with ct obtain y where
      cy: "if token_of y = [] then tail = [(Reactive_refresh, refresh_request s, y)]
               else \<exists>z. tail =
                      [(Reactive_refresh, refresh_request s, y),
                       (Retry_request,
                        api_request path opts
                          (AList.update ''Authorization'' (''Bearer '' @ token_of y)
                             (request_headers opts)), z)]"
      by auto
    have a1: "(\<forall>rf a. y = Response rf \<and> ok rf \<longrightarrow> body rf \<noteq> Json_object a \<or> a = []) \<longrightarrow>
             tail = [(Reactive_refresh, refresh_request s, y)]"
    proof
      assume n: "\<forall>rf a. y = Response rf \<and> ok rf \<longrightarrow> body rf \<noteq> Json_object a \<or> a = []"
      have "token_of y = []"
      proof (rule ccontr)
        assume "token_of y \<noteq> []"
        from token_ofD[OF this] this n show False by blast
      qed
      with cy show "tail = [(Reactive_refresh, refresh_request s, y)]" by simp
    qed
    have a2: "\<forall>rf a. y = Response rf \<and> ok rf \<and> body rf = Json_object a \<and> a \<noteq> [] \<longrightarrow>
             (\<exists>q z. tail = [(Reactive_refresh, refresh_request s, y), (Retry_request, q, z)] \<and>
                url q = path \<and> method q = opts_method opts \<and> payload q = opts_body opts \<and>
                map_of (headers q) ''Authorization'' = Some (''Bearer '' @ a))"
    proof (intro allI impI)
      fix rf a
      assume h: "y = Response rf \<and> ok rf \<and> body rf = Json_object a \<and> a \<noteq> []"
      then have ta: "token_of y = a"
        by (simp add: token_of_def data_access_def)
      with h cy obtain z where
        "tail = [(Reactive_refresh, refresh_request s, y),
                 (Retry_request,
                  api_request path opts
                    (AList.update ''Authorization'' (''Bearer '' @ a) (request_headers opts)), z)]"
        by auto
      then show "\<exists>q z. tail = [(Reactive_refresh, refresh_request s, y), (Retry_request, q, z)] \<and>
                url q = path \<and> method q = opts_method opts \<and> payload q = opts_body opts \<and>
                map_of (headers q) ''Authorization'' = Some (''Bearer '' @ a)"
        using retry_request_fields[of path opts a "request_headers opts"] by blast
    qed
    have "\<exists>qr y.
          url qr = ''/api/auth/token/refresh/'' \<and> method qr = ''POST'' \<and>
          headers qr = [(''Content-Type'', ''application/json'')] \<and>
          payload qr = Some (JObj [(''refresh'', JStr (tokens_refresh s))]) \<and>
          ((\<forall>rf a. y = Response rf \<and> ok rf \<longrightarrow> body rf \<noteq> Json_object a \<or> a = []) \<longrightarrow>
             tail = [(Reactive_refresh, qr, y)]) \<and>
          (\<forall>rf a. y = Response rf \<and> ok rf \<and> body rf = Json_object a \<and> a \<noteq> [] \<longrightarrow>
             (\<exists>q z. tail = [(Reactive_refresh, qr, y), (Retry_request, q, z)] \<and>
                url q = path \<and> method q = opts_method opts \<and> payload q = opts_body opts \<and>
                map_of (headers q) ''Authorization'' = Some (''Bearer '' @ a)))"
      apply (rule exI[of _ "refresh_request s"], rule exI[of _ y])
      apply (intro conjI)
           apply (rule refresh_request_fields)+
       apply (rule a1)
      apply (rule a2)
      done
    with False show ?thesis by (simp only: if_False)
  qed
  show "\<exists>pre tail.
      fetches (events_since s s') = pre @ (Initial_request, req, Response res) # tail \<and>
      (pre = [] \<or> (\<exists>q0 x0. pre = [(Proactive_refresh, q0, x0)])) \<and>
      url req = path \<and> method req = opts_method opts \<and> payload req = opts_body opts \<and>
      (if tokens_refresh s = [] then tail = []
       else \<exists>qr y.
          url qr = ''/api/auth/token/refresh/'' \<and> method qr = ''POST'' \<and>
          headers qr = [(''Content-Type'', ''application/json'')] \<and>
          payload qr = Some (JObj [(''refresh'', JStr (tokens_refresh s))]) \<and>
          ((\<forall>rf a. y = Response rf \<and> ok rf \<longrightarrow> body rf \<noteq> Json_object a \<or> a = []) \<longrightarrow>
             tail = [(Reactive_refresh, qr, y)]) \<and>
          (\<forall>rf a. y = Response rf \<and> ok rf \<and> body rf = Json_object a \<and> a \<noteq> [] \<longrightarrow>
             (\<exists>q z. tail = [(Reactive_refresh, qr, y), (Retry_request, q, z)] \<and>
                url q = path \<and> method q = opts_method opts \<and> payload q = opts_body opts \<and>
                map_of (headers q) ''Authorization'' = Some (''Bearer '' @ a))))"
    apply (rule exI[of _ pre], rule exI[of _ tail])
    apply (intro conjI)
         apply (rule f)
        apply (rule pr)
       apply (rule rq[THEN conjunct1])
      apply (rule rq[THEN conjunct2, THEN conjunct1])
     apply (rule rq[THEN conjunct2, THEN conjunct2])
    apply (rule tl)
    done
qed


subsection \<open>Evaluating a call on a scripted network\<close>

lemma getItem_initial_state [simp]: "getItem k initial_state = None"
  by (simp add: initial_state_def getItem_def)

lemma initial_state_simps [simp]:
  "trace initial_state = []"
  "sessionInvalidated initial_state = False"
  "clock initial_state = 0"
  "timers initial_state = []"
  "factionDirectoryCache initial_state = empty_directory"
  by (simp_all add: initial_state_def)

lemma getItem_session_with [simp]:
  "getItem k (session_with a r script) =
     (if k = ''abx_refresh'' then Some r else if k = ''abx_access'' then Some a else None)"
  by (simp add: session_with_def)

lemma session_with_simps [simp]:
  "tokens_access (session_with a r script) = a"
  "tokens_refresh (session_with a r script) = r"
  "trace (session_with a r script) = []"
  "network (session_with a r script) = script"
  "clock (session_with a r script) = 0"
  "timers (session_with a r script) = []"
  "sessionInvalidated (session_with a r script) = False"
  "factionDirectoryCache (session_with a r script) = empty_directory"
  by (simp_all add: session_with_def tokens_access_def tokens_refresh_def)

lemmas eval_defs = no_claims_def payload_table_def unauthorized_def new_token_def directory_answer_def accepted_def server_error_def api_def proactive_refresh_def refresh_before_request_def reactive_refresh_def
  fetch_def decodeJwt_def token_expiring_def data_access_def ok_def events_since_def
  api_request_def attach_token_def request_headers_def object_assign_def refresh_request_def
  no_opts_def hur_events_def flag_advance Let_def tokens_access_def tokens_refresh_def
  set_tokens_access_def












text \<open>
  An instance of C3: the request is answered 401, the refresh gives the token \<open>fresh\<close>,
  and the retry, sent with that token, is answered 401 again.
\<close>

theorem api_retries_at_most_once_witness:
  "Fetch Initial_request
      \<lparr>url = ''/api/lineage/'', method = [],
       headers = [(''Content-Type'', ''application/json''), (''Authorization'', ''Bearer opaque'')],
       payload = None\<rparr> unauthorized
     \<in> set (events_since (session_with ''opaque'' ''r1'' [(10, unauthorized), (10, new_token), (10, unauthorized)])
         (snd (api no_claims ''/api/lineage/'' no_opts
            (session_with ''opaque'' ''r1'' [(10, unauthorized), (10, new_token), (10, unauthorized)])))) \<and>
   fetches (events_since (session_with ''opaque'' ''r1'' [(10, unauthorized), (10, new_token), (10, unauthorized)])
         (snd (api no_claims ''/api/lineage/'' no_opts
            (session_with ''opaque'' ''r1'' [(10, unauthorized), (10, new_token), (10, unauthorized)]))))
     = [(Initial_request,
         \<lparr>url = ''/api/lineage/'', method = [],
          headers = [(''Content-Type'', ''application/json''), (''Authorization'', ''Bearer opaque'')],
          payload = None\<rparr>, unauthorized),
        (Reactive_refresh,
         \<lparr>url = ''/api/auth/token/refresh/'', method = ''POST'',
          headers = [(''Content-Type'', ''application/json'')],
          payload = Some (JObj [(''refresh'', JStr ''r1'')])\<rparr>, new_token),
        (Retry_request,
         \<lparr>url = ''/api/lineage/'', method = [],
          headers = [(''Content-Type'', ''application/json''), (''Authorization'', ''Bearer fresh'')],
          payload = None\<rparr>, unauthorized)] \<and>
   Called_handleUnauthorizedResponse
     \<in> set (events_since (session_with ''opaque'' ''r1'' [(10, unauthorized), (10, new_token), (10, unauthorized)])
         (snd (api no_claims ''/api/lineage/'' no_opts
            (session_with ''opaque'' ''r1'' [(10, unauthorized), (10, new_token), (10, unauthorized)]))))"
proof -
  let ?S = "session_with ''opaque'' ''r1'' [(10, unauthorized), (10, new_token), (10, unauthorized)]"
  let ?r = "api no_claims ''/api/lineage/'' no_opts ?S"
  let ?q = "\<lparr>url = ''/api/lineage/'', method = [],
       headers = [(''Content-Type'', ''application/json''), (''Authorization'', ''Bearer opaque'')],
       payload = None\<rparr>"
  have run: "fetches (events_since ?S (snd ?r))
     = [(Initial_request, ?q, unauthorized),
        (Reactive_refresh,
         \<lparr>url = ''/api/auth/token/refresh/'', method = ''POST'',
          headers = [(''Content-Type'', ''application/json'')],
          payload = Some (JObj [(''refresh'', JStr ''r1'')])\<rparr>, new_token),
        (Retry_request,
         \<lparr>url = ''/api/lineage/'', method = [],
          headers = [(''Content-Type'', ''application/json''), (''Authorization'', ''Bearer fresh'')],
          payload = None\<rparr>, unauthorized)]"
    by (simp add: eval_defs)
  have h1: "?r = (fst ?r, snd ?r)" by simp
  have h2: "Fetch Initial_request ?q (Response \<lparr>status = 401, body = Json_null\<rparr>) \<in> set (events_since ?S (snd ?r))"
    by (simp add: eval_defs)
  have h3: "status \<lparr>status = 401, body = Json_null\<rparr> = 401" by simp
  have nr: "\<not> list_ex retry_accepted (events_since ?S (snd ?r))"
    by (simp add: eval_defs)
  note T = api_retries_at_most_once[OF h1 h2 h3]
  from T nr have called: "Called_handleUnauthorizedResponse \<in> set (events_since ?S (snd ?r))"
    by blast
  from h2 have h2': "Fetch Initial_request ?q unauthorized \<in> set (events_since ?S (snd ?r))"
    by (simp only: unauthorized_def)
  from h2' run called show ?thesis by blast
qed

text \<open>
  C4. A call of handleUnauthorizedResponse while the flag is set changes nothing at all.
  A first call, made with the flag clear and no reset pending, clears both tokens and the
  directory cache, switches to the login tier and shows the message; a second call less
  than 1500 ms later is such a no-op, so the trace of the burst holds one tier switch and
  one message. From 1500 ms after the first call the flag is clear again.
\<close>

theorem handleUnauthorizedResponse_debounced:
  "(sessionInvalidated s' \<longrightarrow> handleUnauthorizedResponse msg' s' = s') \<and>
   (\<not> sessionInvalidated s \<and> timers s = [] \<longrightarrow>
      events_since s (handleUnauthorizedResponse msg s) =
        [CloseModal, HideOverlay, SwitchTier ''login'', ShowMessage msg ''error''] \<and>
      tokens_access (handleUnauthorizedResponse msg s) = [] \<and>
      tokens_refresh (handleUnauthorizedResponse msg s) = [] \<and>
      factionDirectoryCache (handleUnauthorizedResponse msg s) = empty_directory \<and>
      (\<forall>d < 1500.
         sessionInvalidated (advance d (handleUnauthorizedResponse msg s)) \<and>
         handleUnauthorizedResponse msg' (advance d (handleUnauthorizedResponse msg s))
           = advance d (handleUnauthorizedResponse msg s) \<and>
         events_since s (handleUnauthorizedResponse msg' (advance d (handleUnauthorizedResponse msg s)))
           = [CloseModal, HideOverlay, SwitchTier ''login'', ShowMessage msg ''error'']) \<and>
      (\<forall>d \<ge> 1500. \<not> sessionInvalidated (advance d (handleUnauthorizedResponse msg s))))"
proof (intro conjI impI)
  assume "sessionInvalidated s'"
  then show "handleUnauthorizedResponse msg' s' = s'" by (rule hur_noop)
next
  assume a: "\<not> sessionInvalidated s \<and> timers s = []"
  let ?s1 = "handleUnauthorizedResponse msg s"
  show ev: "events_since s ?s1 = [CloseModal, HideOverlay, SwitchTier ''login'', ShowMessage msg ''error'']"
    using a by (simp add: events_since_def hur_simps)
  show "tokens_access ?s1 = []" "tokens_refresh ?s1 = []"
    using a hur_clears(1,2)[of s msg] by (simp_all add: tokens_access_def tokens_refresh_def)
  show "factionDirectoryCache ?s1 = empty_directory"
    using a by (simp add: hur_clears)
  have fl: "sessionInvalidated (advance d ?s1) = (d < 1500)" for d
    using a by (simp add: flag_advance hur_simps)
  have w: "d < 1500 \<Longrightarrow> handleUnauthorizedResponse msg' (advance d ?s1) = advance d ?s1" for d
    using fl[of d] by (simp add: hur_noop)
  have ev2: "d < 1500 \<Longrightarrow> events_since s (handleUnauthorizedResponse msg' (advance d ?s1))
      = [CloseModal, HideOverlay, SwitchTier ''login'', ShowMessage msg ''error'']" for d
    using w[of d] ev by (simp add: events_since_def)
  show "\<forall>d < 1500.
         sessionInvalidated (advance d ?s1) \<and>
         handleUnauthorizedResponse msg' (advance d ?s1) = advance d ?s1 \<and>
         events_since s (handleUnauthorizedResponse msg' (advance d ?s1))
           = [CloseModal, HideOverlay, SwitchTier ''login'', ShowMessage msg ''error'']"
    using fl w ev2 by simp
  show "\<forall>d \<ge> 1500. \<not> sessionInvalidated (advance d ?s1)"
    using fl by simp
qed

theorem handleUnauthorizedResponse_debounced_witness:
  "\<not> sessionInvalidated (session_with ''a1'' ''r1'' []) \<and>
   timers (session_with ''a1'' ''r1'' []) = [] \<and>
   sessionInvalidated (advance 700 (handleUnauthorizedResponse ''m1'' (session_with ''a1'' ''r1'' []))) \<and>
   handleUnauthorizedResponse ''m2'' (advance 700 (handleUnauthorizedResponse ''m1'' (session_with ''a1'' ''r1'' [])))
     = advance 700 (handleUnauthorizedResponse ''m1'' (session_with ''a1'' ''r1'' [])) \<and>
   events_since (session_with ''a1'' ''r1'' [])
       (handleUnauthorizedResponse ''m2'' (advance 700 (handleUnauthorizedResponse ''m1'' (session_with ''a1'' ''r1'' []))))
     = [CloseModal, HideOverlay, SwitchTier ''login'', ShowMessage ''m1'' ''error''] \<and>
   tokens_refresh (handleUnauthorizedResponse ''m1'' (session_with ''a1'' ''r1'' [])) = [] \<and>
   \<not> sessionInvalidated (advance 1500 (handleUnauthorizedResponse ''m1'' (session_with ''a1'' ''r1'' [])))"
proof -
  let ?S = "session_with ''a1'' ''r1'' []"
  let ?S1 = "handleUnauthorizedResponse ''m1'' ?S"
  have h: "\<not> sessionInvalidated ?S \<and> timers ?S = []" by simp
  note T = handleUnauthorizedResponse_debounced[of "advance 700 ?S1" "''m2''" ?S "''m1''"]
  from T h have tok: "tokens_refresh ?S1 = []" by blast
  from T h have "\<forall>d < 1500.
         sessionInvalidated (advance d ?S1) \<and>
         handleUnauthorizedResponse ''m2'' (advance d ?S1) = advance d ?S1 \<and>
         events_since ?S (handleUnauthorizedResponse ''m2'' (advance d ?S1))
           = [CloseModal, HideOverlay, SwitchTier ''login'', ShowMessage ''m1'' ''error'']"
    by blast
  then have "(700::nat) < 1500 \<longrightarrow> sessionInvalidated (advance 700 ?S1) \<and>
         handleUnauthorizedResponse ''m2'' (advance 700 ?S1) = advance 700 ?S1 \<and>
         events_since ?S (handleUnauthorizedResponse ''m2'' (advance 700 ?S1))
           = [CloseModal, HideOverlay, SwitchTier ''login'', ShowMessage ''m1'' ''error'']"
    by blast
  moreover have "(700::nat) < 1500" by simp
  ultimately have within: "sessionInvalidated (advance 700 ?S1) \<and>
         handleUnauthorizedResponse ''m2'' (advance 700 ?S1) = advance 700 ?S1 \<and>
         events_since ?S (handleUnauthorizedResponse ''m2'' (advance 700 ?S1))
           = [CloseModal, HideOverlay, SwitchTier ''login'', ShowMessage ''m1'' ''error'']"
    by blast
  from T h have "\<forall>d \<ge> 1500. \<not> sessionInvalidated (advance d ?S1)"
    by blast
  then have "(1500::nat) \<le> 1500 \<longrightarrow> \<not> sessionInvalidated (advance 1500 ?S1)"
    by blast
  then have after: "\<not> sessionInvalidated (advance 1500 ?S1)"
    by simp
  from h tok within after show ?thesis by blast
qed



section \<open>Lemmas: the roster dialog\<close>

lemma all_update:
  "list_all P (map snd al) \<Longrightarrow> P v \<Longrightarrow> list_all P (map snd (AList.update k v al))"
  by (induction al) auto

lemma all_delete:
  "list_all P (map snd al) \<Longrightarrow> list_all P (map snd (AList.delete k al))"
  by (induction al) (auto simp add: AList.delete_eq)

lemma all_lookup:
  "list_all P (map snd al) \<Longrightarrow> map_of al k = Some v \<Longrightarrow> P v"
  by (auto simp add: list_all_iff dest!: map_of_SomeD)

lemma all_fold_update:
  "list_all P (map snd acc) \<Longrightarrow> (\<And>x. P (f x)) \<Longrightarrow>
     list_all P (map snd (fold (\<lambda>x st. AList.update (key x) (f x) st) xs acc))"
  by (induction xs arbitrary: acc) (simp_all add: all_update)

lemma initial_entry_flags [simp]:
  "isNew (initial_entry options mem) = False"
  "isRemoved (initial_entry options mem) = False"
  "affiliation (initial_entry options mem) = originalAffiliation (initial_entry options mem)"
  by (simp_all add: initial_entry_def Let_def)

lemma applyInitialData_fresh:
  "list_all (\<lambda>entry. \<not> isNew entry \<and> \<not> isRemoved entry) (roster_values (applyInitialData data m))"
  by (simp add: applyInitialData_def roster_values_def Let_def all_fold_update)

lemma consistent_applyInitialData: "roster_consistent (applyInitialData data m)"
  using applyInitialData_fresh[of data m]
  by (auto simp add: roster_consistent_def consistent_entry_def list_all_iff)

lemma consistent_loadCandidates:
  "roster_consistent m \<Longrightarrow> roster_consistent (loadCandidates term answer m)"
  by (simp add: loadCandidates_def roster_consistent_def roster_values_def Let_def split: option.splits)

lemma consistent_member_aff_change:
  "roster_consistent m \<Longrightarrow> roster_consistent (member_aff_change profileId v m)"
  by (auto simp add: member_aff_change_def roster_consistent_def roster_values_def consistent_entry_def
      split: option.splits intro!: all_update dest: all_lookup)

lemma consistent_member_remove_click:
  "roster_consistent m \<Longrightarrow> roster_consistent (member_remove_click profileId m)"
  by (auto simp add: member_remove_click_def roster_consistent_def roster_values_def consistent_entry_def
      split: option.splits intro!: all_update all_delete)

lemma consistent_candidate_aff_change:
  "roster_consistent m \<Longrightarrow> roster_consistent (candidate_aff_change profileId v m)"
  by (simp add: candidate_aff_change_def roster_consistent_def roster_values_def)

lemma consistent_candidate_add_click:
  "roster_consistent m \<Longrightarrow> roster_consistent (candidate_add_click profileId affSelect m)"
  by (auto simp add: candidate_add_click_def roster_consistent_def roster_values_def consistent_entry_def
      Let_def split: option.splits intro!: all_update)

lemma consistent_step: "roster_consistent m \<Longrightarrow> roster_consistent (roster_step a m)"
  by (cases a)
     (simp_all add: consistent_applyInitialData consistent_loadCandidates consistent_member_aff_change
        consistent_member_remove_click consistent_candidate_aff_change consistent_candidate_add_click)

lemma consistent_fold: "roster_consistent m \<Longrightarrow> roster_consistent (fold roster_step acts m)"
  by (induction acts arbitrary: m) (simp_all add: consistent_step)

lemma consistent_initial_modal: "roster_consistent initial_modal"
  by (simp add: roster_consistent_def roster_values_def initial_modal_def)

lemma consistent_roster_after: "roster_consistent (roster_after acts)"
  by (simp add: roster_after_def consistent_fold consistent_initial_modal)

text \<open>The selected affiliation of an add is never empty.\<close>

lemma normalise_Associate_nonempty: "normaliseAffiliation options ''Associate'' \<noteq> []"
  by (auto simp add: normaliseAffiliation_def split: list.splits)


lemmas roster_defs = roster_after_def initial_modal_def applyInitialData_def loadCandidates_def
  member_aff_change_def member_remove_click_def candidate_aff_change_def candidate_add_click_def
  initial_entry_def candidate_of_def normaliseAffiliation_def AFFILIATION_DEFAULTS_def
  save_diff_def diff_step_def member_one_def baseline_one_def roster_values_def
  roster_consistent_def consistent_entry_def Let_def

section \<open>Claims about the faction roster\<close>

text \<open>
  C5. The baseline holds member 1 with affiliation Member (any name and aliases, the
  default affiliation options). Removing member 1 leaves a tombstone, reported as a
  removal. A search that brings member 1 back as a candidate, and adding it with
  affiliation Leader, restores the entry: the diff then has empty add and remove
  buckets and the one update (1, Leader).
\<close>

theorem restored_member_is_an_update:
  assumes "term \<noteq> []"
  shows "save_diff (roster_after
           [Initial_data \<lparr>affiliation_options = None,
              members = [\<lparr>mem_profile_id = 1, mem_full_name = n, mem_aliases = al,
                          mem_affiliation = ''Member''\<rparr>]\<rparr>,
            Member_remove_click 1,
            Candidates_loaded term
              (Some [\<lparr>mem_profile_id = 1, mem_full_name = n', mem_aliases = al', mem_affiliation = a'\<rparr>]),
            Candidate_add_click 1 (Some ''Leader'')])
         = \<lparr>add = [], updates = [(1, ''Leader'')], remove = []\<rparr> \<and>
       save_diff (roster_after
           [Initial_data \<lparr>affiliation_options = None,
              members = [\<lparr>mem_profile_id = 1, mem_full_name = n, mem_aliases = al,
                          mem_affiliation = ''Member''\<rparr>]\<rparr>,
            Member_remove_click 1])
         = \<lparr>add = [], updates = [], remove = [1]\<rparr>"
  using assms by (simp add: roster_defs)

theorem restored_member_is_an_update_witness:
  "''ada'' \<noteq> [] \<and>
   save_diff (roster_after
           [Initial_data baseline_one,
            Member_remove_click 1,
            Candidates_loaded ''ada'' (Some [member_one ''Associate'']),
            Candidate_add_click 1 (Some ''Leader'')])
         = \<lparr>add = [], updates = [(1, ''Leader'')], remove = []\<rparr>"
proof -
  have h: "''ada'' \<noteq> []" by simp
  from restored_member_is_an_update[OF h, of "''Ada''" "[]" "''Ada''" "[]" "''Associate''"]
  show ?thesis by (simp add: baseline_one_def member_one_def)
qed


subsection \<open>hasChanges against the diff\<close>

lemma diff_step_keeps_nonempty: "\<not> diff_empty d \<Longrightarrow> \<not> diff_empty (diff_step entry d)"
  by (auto simp add: diff_empty_def diff_step_def)

lemma fold_diff_step_keeps_nonempty:
  "\<not> diff_empty d \<Longrightarrow> \<not> diff_empty (fold diff_step es d)"
  by (induction es arbitrary: d) (simp_all add: diff_step_keeps_nonempty)

lemma diff_step_reported: "reported entry \<Longrightarrow> \<not> diff_empty (diff_step entry d)"
  by (auto simp add: diff_empty_def diff_step_def reported_def)

lemma diff_step_unreported: "\<not> reported entry \<Longrightarrow> diff_step entry d = d"
  by (auto simp add: diff_step_def reported_def)

lemma fold_diff_step_empty:
  "diff_empty (fold diff_step es d) \<longleftrightarrow> diff_empty d \<and> \<not> list_ex reported es"
proof (induction es arbitrary: d)
  case Nil
  then show ?case by simp
next
  case (Cons entry es)
  show ?case
  proof (cases "reported entry")
    case True
    then have "\<not> diff_empty (fold diff_step es (diff_step entry d))"
      by (simp add: diff_step_reported fold_diff_step_keeps_nonempty)
    with True show ?thesis by simp
  next
    case False
    with Cons show ?thesis by (simp add: diff_step_unreported)
  qed
qed

lemma hasChanges_loop_reported:
  "list_all consistent_entry es \<Longrightarrow> hasChanges_loop es \<longleftrightarrow> list_ex reported es"
  by (induction es) (auto simp add: consistent_entry_def reported_def)

lemma save_diff_empty: "diff_empty (save_diff m) \<longleftrightarrow> \<not> list_ex reported (roster_values m)"
  using fold_diff_step_empty[of "map snd (rosterState m)" "\<lparr>add = [], updates = [], remove = []\<rparr>"]
  by (simp add: save_diff_def roster_values_def diff_empty_def)

text \<open>
  C6. In every state the roster dialog can reach, hasChanges() is true exactly when the
  diff of the save handler has an entry in add, updates or remove. When the three buckets
  are empty, the save handler shows the message "No roster changes to save." and does
  nothing else: no request is sent.
\<close>

theorem hasChanges_iff_diff_nonempty:
  "(hasChanges (roster_after acts) \<longleftrightarrow>
      add (save_diff (roster_after acts)) \<noteq> [] \<or> updates (save_diff (roster_after acts)) \<noteq> []
      \<or> remove (save_diff (roster_after acts)) \<noteq> []) \<and>
   (add (save_diff m) = [] \<and> updates (save_diff m) = [] \<and> remove (save_diff m) = [] \<longrightarrow>
      members_save_click parse factionId m s = emit (ShowMessage ''No roster changes to save.'' ''info'') s \<and>
      events_since s (members_save_click parse factionId m s)
        = [ShowMessage ''No roster changes to save.'' ''info''] \<and>
      fetch_sites (events_since s (members_save_click parse factionId m s)) = [])"
proof (intro conjI impI)
  have "list_all consistent_entry (roster_values (roster_after acts))"
    using consistent_roster_after[of acts] by (simp add: roster_consistent_def)
  then have "hasChanges (roster_after acts) \<longleftrightarrow> \<not> diff_empty (save_diff (roster_after acts))"
    by (simp add: hasChanges_def hasChanges_loop_reported save_diff_empty roster_values_def)
  then show "hasChanges (roster_after acts) \<longleftrightarrow>
      add (save_diff (roster_after acts)) \<noteq> [] \<or> updates (save_diff (roster_after acts)) \<noteq> []
      \<or> remove (save_diff (roster_after acts)) \<noteq> []"
    by (auto simp add: diff_empty_def)
next
  assume e: "add (save_diff m) = [] \<and> updates (save_diff m) = [] \<and> remove (save_diff m) = []"
  then show c: "members_save_click parse factionId m s = emit (ShowMessage ''No roster changes to save.'' ''info'') s"
    by (simp add: members_save_click_def Let_def)
  then show "events_since s (members_save_click parse factionId m s)
        = [ShowMessage ''No roster changes to save.'' ''info'']"
    by (simp add: events_since_def)
  then show "fetch_sites (events_since s (members_save_click parse factionId m s)) = []"
    by simp
qed

theorem hasChanges_iff_diff_nonempty_witness:
  "hasChanges (roster_after [Initial_data baseline_one, Member_aff_change 1 ''Leader'']) \<and>
   updates (save_diff (roster_after [Initial_data baseline_one, Member_aff_change 1 ''Leader''])) = [(1, ''Leader'')] \<and>
   add (save_diff (roster_after [Initial_data baseline_one])) = [] \<and>
   updates (save_diff (roster_after [Initial_data baseline_one])) = [] \<and>
   remove (save_diff (roster_after [Initial_data baseline_one])) = [] \<and>
   fetch_sites (events_since (session_with ''opaque'' ''r1'' [(10, new_token)])
     (members_save_click no_claims ''3'' (roster_after [Initial_data baseline_one])
        (session_with ''opaque'' ''r1'' [(10, new_token)]))) = []"
proof -
  have u: "updates (save_diff (roster_after [Initial_data baseline_one, Member_aff_change 1 ''Leader''])) = [(1, ''Leader'')]"
    by (simp add: roster_defs)
  then have u': "updates (save_diff (roster_after [Initial_data baseline_one, Member_aff_change 1 ''Leader''])) \<noteq> []"
    by simp
  have e: "add (save_diff (roster_after [Initial_data baseline_one])) = [] \<and>
      updates (save_diff (roster_after [Initial_data baseline_one])) = [] \<and>
      remove (save_diff (roster_after [Initial_data baseline_one])) = []"
    by (simp add: roster_defs)
  from hasChanges_iff_diff_nonempty[of "[Initial_data baseline_one, Member_aff_change 1 ''Leader'']"
      "roster_after [Initial_data baseline_one]" no_claims "''3''" "session_with ''opaque'' ''r1'' [(10, new_token)]"]
    u u' e
  show ?thesis by blast
qed

text \<open>
  C10. No entry of the roster is ever both new and removed: the invariant holds in every
  state the dialog can reach, and each action (load, candidate search, affiliation
  change, remove, add) preserves it. The initial load makes every entry neither new nor
  removed; removing a new entry deletes its key from the map; adding a candidate whose
  key is already in the map keeps the entry, clears isRemoved and sets a non-empty
  affiliation.
\<close>

theorem roster_never_new_and_removed:
  "roster_consistent (roster_after acts) \<and>
   (roster_consistent m \<longrightarrow> roster_consistent (roster_step a m)) \<and>
   list_all (\<lambda>entry. \<not> isNew entry \<and> \<not> isRemoved entry) (roster_values (applyInitialData data m)) \<and>
   (map_of (rosterState m) k = Some entry \<and> isNew entry \<longrightarrow>
      map_of (rosterState (member_remove_click k m)) k = None) \<and>
   (map_of (rosterState m) k = Some entry \<and>
    find (\<lambda>c. cand_profile_id c = k) (candidateCache m) = Some cand \<longrightarrow>
      (\<exists>aff. aff \<noteq> [] \<and>
         map_of (rosterState (candidate_add_click k affSelect m)) k
           = Some (entry\<lparr>isRemoved := False, affiliation := aff\<rparr>)))"
proof (intro conjI impI)
  show "roster_consistent (roster_after acts)" by (rule consistent_roster_after)
  show "roster_consistent (roster_step a m)" if "roster_consistent m"
    using that by (rule consistent_step)
  show "list_all (\<lambda>entry. \<not> isNew entry \<and> \<not> isRemoved entry) (roster_values (applyInitialData data m))"
    by (rule applyInitialData_fresh)
  show "map_of (rosterState (member_remove_click k m)) k = None"
    if "map_of (rosterState m) k = Some entry \<and> isNew entry"
    using that by (simp add: member_remove_click_def AList.delete_conv')
  show "\<exists>aff. aff \<noteq> [] \<and>
         map_of (rosterState (candidate_add_click k affSelect m)) k
           = Some (entry\<lparr>isRemoved := False, affiliation := aff\<rparr>)"
    if "map_of (rosterState m) k = Some entry \<and>
        find (\<lambda>c. cand_profile_id c = k) (candidateCache m) = Some cand"
    using that normalise_Associate_nonempty[of "affiliationOptions m"]
    by (auto simp add: candidate_add_click_def Let_def AList.update_conv' split: option.splits)
qed


theorem roster_never_new_and_removed_witness:
  "roster_consistent (roster_after [Initial_data baseline_one]) \<and>
   roster_consistent (roster_step (Member_remove_click 1) (roster_after [Initial_data baseline_one])) \<and>
   map_of (rosterState (roster_after
       [Candidates_loaded ''ada'' (Some [member_one ''Associate'']), Candidate_add_click 1 None])) 1
     = Some \<lparr>profile_id = 1, full_name = ''Ada'', aliases = [], affiliation = ''Associate'',
             originalAffiliation = ''Associate'', isNew = True, isRemoved = False\<rparr> \<and>
   map_of (rosterState (member_remove_click 1 (roster_after
       [Candidates_loaded ''ada'' (Some [member_one ''Associate'']), Candidate_add_click 1 None]))) 1 = None \<and>
   map_of (rosterState (roster_after
       [Initial_data baseline_one, Member_remove_click 1,
        Candidates_loaded ''ada'' (Some [member_one ''Associate''])])) 1
     = Some \<lparr>profile_id = 1, full_name = ''Ada'', aliases = [], affiliation = ''Member'',
             originalAffiliation = ''Member'', isNew = False, isRemoved = True\<rparr> \<and>
   (\<exists>aff. aff \<noteq> [] \<and>
      map_of (rosterState (candidate_add_click 1 (Some ''Leader'') (roster_after
       [Initial_data baseline_one, Member_remove_click 1,
        Candidates_loaded ''ada'' (Some [member_one ''Associate''])]))) 1
     = Some \<lparr>profile_id = 1, full_name = ''Ada'', aliases = [], affiliation = aff,
             originalAffiliation = ''Member'', isNew = False, isRemoved = False\<rparr>)"
proof -
  let ?m5 = "roster_after [Initial_data baseline_one, Member_remove_click 1,
        Candidates_loaded ''ada'' (Some [member_one ''Associate''])]"
  let ?e5 = "\<lparr>profile_id = 1, full_name = ''Ada'', aliases = [], affiliation = ''Member'',
             originalAffiliation = ''Member'', isNew = False, isRemoved = True\<rparr>"
  let ?c5 = "\<lparr>cand_profile_id = 1, cand_full_name = ''Ada'', cand_aliases = [],
             cand_affiliation = ''Associate''\<rparr>"
  note V = roster_never_new_and_removed[of "[]" ?m5 "Member_remove_click 1" baseline_one 1 ?e5 ?c5 "Some ''Leader''"]
  have h5: "map_of (rosterState ?m5) 1 = Some ?e5 \<and>
      find (\<lambda>c. cand_profile_id c = 1) (candidateCache ?m5) = Some ?c5"
    by (simp add: roster_defs)
  from V h5 have r5: "\<exists>aff. aff \<noteq> [] \<and>
      map_of (rosterState (candidate_add_click 1 (Some ''Leader'') ?m5)) 1
        = Some (?e5\<lparr>isRemoved := False, affiliation := aff\<rparr>)"
    by blast
  then have r5': "\<exists>aff. aff \<noteq> [] \<and>
      map_of (rosterState (candidate_add_click 1 (Some ''Leader'') ?m5)) 1
        = Some \<lparr>profile_id = 1, full_name = ''Ada'', aliases = [], affiliation = aff,
             originalAffiliation = ''Member'', isNew = False, isRemoved = False\<rparr>"
    by simp
  let ?m = "roster_after [Candidates_loaded ''ada'' (Some [member_one ''Associate'']), Candidate_add_click 1 None]"
  let ?e = "\<lparr>profile_id = 1, full_name = ''Ada'', aliases = [], affiliation = ''Associate'',
             originalAffiliation = ''Associate'', isNew = True, isRemoved = False\<rparr>"
  note T = roster_never_new_and_removed[of "[Initial_data baseline_one]"
      "roster_after [Initial_data baseline_one]" "Member_remove_click 1" baseline_one]
  note U = roster_never_new_and_removed[of "[]" ?m "Member_remove_click 1" baseline_one 1 ?e]
  have h: "map_of (rosterState ?m) 1 = Some ?e \<and> isNew ?e"
    by (simp add: roster_defs)
  from T have c: "roster_consistent (roster_after [Initial_data baseline_one]) \<and>
      roster_consistent (roster_step (Member_remove_click 1) (roster_after [Initial_data baseline_one]))"
    by blast
  from U h have "map_of (rosterState (member_remove_click 1 ?m)) 1 = None"
    by blast
  with c h h5 r5' show ?thesis by blast
qed


section \<open>Lemmas: what the commits send\<close>

lemma api_trace:
  assumes "api parse path opts s = (r, s')"
  shows "trace s' = trace s @ events_since s s'"
proof -
  from api_events[OF assms] obtain evs1 evs2 where "trace s' = trace s @ evs1 @ evs2"
    by blast
  then show ?thesis by (simp add: events_since_def)
qed

text \<open>Both times api sends the request, it is the request it was given.\<close>

lemma api_requests:
  assumes "api parse path opts s = (r, s')"
    and "Fetch site q x \<in> set (events_since s s')"
    and "site = Initial_request \<or> site = Retry_request"
  shows "url q = path \<and> method q = opts_method opts \<and> payload q = opts_body opts"
proof -
  from api_events[OF assms(1)] obtain r1 s1 evs1 evs2 where
    t: "trace s' = trace s @ evs1 @ evs2" and
    e1: "fetch_sites evs1 \<in> {[], [Proactive_refresh]}" and
    c: "case r1 of
              Inl e \<Rightarrow> r = Inl e \<and> evs2 = [] \<and> Called_handleUnauthorizedResponse \<in> set evs1
            | Inr tok \<Rightarrow>
                Called_handleUnauthorizedResponse \<notin> set evs1 \<and> tokens_refresh s1 = tokens_refresh s \<and>
                (\<exists>x evs3.
                   evs2 = Fetch Initial_request (api_request path opts (attach_token tok (request_headers opts))) x # evs3 \<and>
                   (case x of
                      NetworkError \<Rightarrow> r = Inl Rejected \<and> evs3 = []
                    | Response res \<Rightarrow>
                        if status res \<noteq> 401 then r = Inr res \<and> evs3 = []
                        else (\<exists>y. r = Inr y)
                           \<and> fetch_sites evs3 \<in> {[], [Reactive_refresh], [Reactive_refresh, Retry_request]}
                           \<and> (list_ex retry_accepted evs3 \<or> Called_handleUnauthorizedResponse \<in> set evs3)
                           \<and> (tokens_refresh s = [] \<longrightarrow> fetch_sites evs3 = [])
                           \<and> (\<forall>q y. Fetch Reactive_refresh q y \<in> set evs3 \<and> \<not> gave_token y \<longrightarrow>
                                  fetch_sites evs3 = [Reactive_refresh])
                           \<and> (\<forall>q y. Fetch Retry_request q y \<in> set evs3 \<longrightarrow>
                                  url q = path \<and> method q = opts_method opts \<and> payload q = opts_body opts)))"
    by blast
  have ev: "events_since s s' = evs1 @ evs2"
    using t by (simp add: events_since_def)
  have n1: "Fetch site q x \<notin> set evs1"
    using e1 assms(3) fetch_in_sites[of site q x evs1] by auto
  with assms(2) ev have in2: "Fetch site q x \<in> set evs2" by simp
  show ?thesis
  proof (cases r1)
    case (Inl e)
    with c in2 show ?thesis by simp
  next
    case (Inr tok)
    with c obtain y evs3 where
      e2: "evs2 = Fetch Initial_request (api_request path opts (attach_token tok (request_headers opts))) y # evs3" and
      cy: "case y of
                      NetworkError \<Rightarrow> r = Inl Rejected \<and> evs3 = []
                    | Response res \<Rightarrow>
                        if status res \<noteq> 401 then r = Inr res \<and> evs3 = []
                        else (\<exists>y. r = Inr y)
                           \<and> fetch_sites evs3 \<in> {[], [Reactive_refresh], [Reactive_refresh, Retry_request]}
                           \<and> (list_ex retry_accepted evs3 \<or> Called_handleUnauthorizedResponse \<in> set evs3)
                           \<and> (tokens_refresh s = [] \<longrightarrow> fetch_sites evs3 = [])
                           \<and> (\<forall>q y. Fetch Reactive_refresh q y \<in> set evs3 \<and> \<not> gave_token y \<longrightarrow>
                                  fetch_sites evs3 = [Reactive_refresh])
                           \<and> (\<forall>q y. Fetch Retry_request q y \<in> set evs3 \<longrightarrow>
                                  url q = path \<and> method q = opts_method opts \<and> payload q = opts_body opts)"
      by auto
    show ?thesis
    proof (cases "Fetch site q x \<in> set evs3")
      case False
      with in2 e2 have "q = api_request path opts (attach_token tok (request_headers opts))"
        by simp
      then show ?thesis by (simp add: api_request_def)
    next
      case True
      then have s3: "site \<in> set (fetch_sites evs3)" by (rule fetch_in_sites)
      then have ne: "evs3 \<noteq> []" by auto
      from cy ne obtain res where y: "y = Response res" by (cases y) auto
      with cy ne have
        fs: "fetch_sites evs3 \<in> {[], [Reactive_refresh], [Reactive_refresh, Retry_request]}" and
        rt: "\<forall>q y. Fetch Retry_request q y \<in> set evs3 \<longrightarrow>
               url q = path \<and> method q = opts_method opts \<and> payload q = opts_body opts"
        by (auto split: if_splits)
      from fs s3 assms(3) have "site = Retry_request" by auto
      with rt True show ?thesis by blast
    qed
  qed
qed

lemma post_simps [simp]:
  "opts_method (post b) = ''POST''"
  "opts_body (post b) = Some b"
  "opts_headers (post b) = []"
  by (simp_all add: post_def)

lemma events_since_emit:
  "trace s1 = trace s @ evs \<Longrightarrow> events_since s (emit e s1) = evs @ [e]"
  by (simp add: events_since_def)

lemma members_save_click_requests:
  assumes "Fetch site q x \<in> set (events_since s (members_save_click parse factionId m s))"
    and "site = Initial_request \<or> site = Retry_request"
  shows "url q = ''/api/scales/factions/'' @ factionId @ ''/manage-members/'' \<and> method q = ''POST'' \<and>
         payload q = Some (members_payload (save_diff m))"
proof (cases "diff_empty (save_diff m)")
  case True
  then have "events_since s (members_save_click parse factionId m s)
      = [ShowMessage ''No roster changes to save.'' ''info'']"
    by (simp add: members_save_click_def diff_empty_def events_since_def)
  with assms(1) show ?thesis by simp
next
  case False
  obtain r s1 where a: "api parse (''/api/scales/factions/'' @ factionId @ ''/manage-members/'')
      (post (members_payload (save_diff m))) s = (r, s1)"
    by fastforce
  define evs where "evs = events_since s s1"
  have t: "trace s1 = trace s @ evs"
    using api_trace[OF a] by (simp add: evs_def)
  have "Fetch site q x \<in> set evs"
    using assms(1) False a t
    by (auto simp add: members_save_click_def diff_empty_def Let_def events_since_def
        split: sum.splits if_splits)
  then have "Fetch site q x \<in> set (events_since s s1)" by (simp add: evs_def)
  from api_requests[OF a this assms(2)] show ?thesis by simp
qed

lemma personnel_save_click_requests:
  assumes "Fetch site q x \<in> set (events_since s (personnel_save_click parse operationId st s))"
    and "site = Initial_request \<or> site = Retry_request"
  shows "url q = ''/api/loom/operations/'' @ operationId @ ''/manage-personnel/'' \<and> method q = ''POST'' \<and>
         payload q = Some (personnel_payload st)"
proof -
  obtain r s1 where a: "api parse (''/api/loom/operations/'' @ operationId @ ''/manage-personnel/'')
      (post (personnel_payload st)) s = (r, s1)"
    by fastforce
  define evs where "evs = events_since s s1"
  have t: "trace s1 = trace s @ evs"
    using api_trace[OF a] by (simp add: evs_def)
  have "Fetch site q x \<in> set evs"
    using assms(1) a t
    by (auto simp add: personnel_save_click_def events_since_def split: sum.splits if_splits)
  then have "Fetch site q x \<in> set (events_since s s1)" by (simp add: evs_def)
  from api_requests[OF a this assms(2)] show ?thesis by simp
qed

lemma targets_save_click_requests:
  assumes "Fetch site q x \<in> set (events_since s (targets_save_click parse operationId st s))"
    and "site = Initial_request \<or> site = Retry_request"
  shows "url q = ''/api/loom/operations/'' @ operationId @ ''/manage-targets/'' \<and> method q = ''POST'' \<and>
         payload q = Some (targets_payload st)"
proof -
  obtain r s1 where a: "api parse (''/api/loom/operations/'' @ operationId @ ''/manage-targets/'')
      (post (targets_payload st)) s = (r, s1)"
    by fastforce
  define evs where "evs = events_since s s1"
  have t: "trace s1 = trace s @ evs"
    using api_trace[OF a] by (simp add: evs_def)
  have "Fetch site q x \<in> set evs"
    using assms(1) a t
    by (auto simp add: targets_save_click_def events_since_def split: sum.splits if_splits)
  then have "Fetch site q x \<in> set (events_since s s1)" by (simp add: evs_def)
  from api_requests[OF a this assms(2)] show ?thesis by simp
qed

text \<open>The buckets of the diff, as filters of the values of the map.\<close>

lemma fold_diff_step_buckets:
  "add (fold diff_step es d)
     = add d @ map (\<lambda>e. (profile_id e, affiliation e)) (filter (\<lambda>e. isNew e \<and> \<not> isRemoved e) es) \<and>
   remove (fold diff_step es d)
     = remove d @ map profile_id (filter (\<lambda>e. isRemoved e \<and> \<not> isNew e) es) \<and>
   updates (fold diff_step es d)
     = updates d @ map (\<lambda>e. (profile_id e, affiliation e))
         (filter (\<lambda>e. isNew e = isRemoved e \<and> affiliation e \<noteq> originalAffiliation e) es)"
  by (induction es arbitrary: d) (auto simp add: diff_step_def)


lemma fold_targets_step:
  "profile_ids (fold targets_step ts p)
     = profile_ids p @ map target_id (filter (\<lambda>t. target_type t = ''profile'') ts) \<and>
   faction_ids (fold targets_step ts p)
     = faction_ids p @ map target_id (filter (\<lambda>t. target_type t = ''faction'') ts)"
  by (induction ts arbitrary: p) (auto simp add: targets_step_def)

lemmas commit_defs = members_save_click_def personnel_save_click_def targets_save_click_def
  members_payload_def personnel_payload_def targets_payload_def targets_step_def pair_json_def
  assignment_json_def post_def one_agent_def two_targets_def accepted_def server_error_def

section \<open>Claims about the commits\<close>

text \<open>
  C7, as the code has it. Only the commit of the faction roster sends the three buckets:
  its body has the keys add, updates and remove, filled from the working set (add: the new
  entries not removed; remove: the removed entries that are not new; updates: the other
  entries whose affiliation differs from the original one). The commit of the operation
  personnel sends one key, assignments, with every assigned entry; the commit of the
  operation targets sends two keys, profile_ids and faction_ids, with the ids of every
  assigned target. Each handler sends its body with POST to its own path, on the request
  and on the retry.
\<close>

theorem roster_commit_payloads:
  "object_keys (members_payload (save_diff m)) = [''add'', ''updates'', ''remove''] \<and>
   add (save_diff m)
     = map (\<lambda>e. (profile_id e, affiliation e)) (filter (\<lambda>e. isNew e \<and> \<not> isRemoved e) (roster_values m)) \<and>
   remove (save_diff m)
     = map profile_id (filter (\<lambda>e. isRemoved e \<and> \<not> isNew e) (roster_values m)) \<and>
   updates (save_diff m)
     = map (\<lambda>e. (profile_id e, affiliation e))
         (filter (\<lambda>e. isNew e = isRemoved e \<and> affiliation e \<noteq> originalAffiliation e) (roster_values m)) \<and>
   personnel_payload pst
     = JObj [(''assignments'', JArr (map assignment_json (map snd (assigned pst))))] \<and>
   targets_payload tst
     = JObj [(''profile_ids'', JArr (map JNum (map target_id
                (filter (\<lambda>t. target_type t = ''profile'') (map snd (assigned_targets tst)))))),
             (''faction_ids'', JArr (map JNum (map target_id
                (filter (\<lambda>t. target_type t = ''faction'') (map snd (assigned_targets tst))))))] \<and>
   (\<forall>site q x. Fetch site q x \<in> set (events_since s (members_save_click parse factionId m s)) \<and>
        (site = Initial_request \<or> site = Retry_request) \<longrightarrow>
        url q = ''/api/scales/factions/'' @ factionId @ ''/manage-members/'' \<and> method q = ''POST'' \<and>
        payload q = Some (members_payload (save_diff m))) \<and>
   (\<forall>site q x. Fetch site q x \<in> set (events_since s (personnel_save_click parse operationId pst s)) \<and>
        (site = Initial_request \<or> site = Retry_request) \<longrightarrow>
        url q = ''/api/loom/operations/'' @ operationId @ ''/manage-personnel/'' \<and> method q = ''POST'' \<and>
        payload q = Some (personnel_payload pst)) \<and>
   (\<forall>site q x. Fetch site q x \<in> set (events_since s (targets_save_click parse operationId tst s)) \<and>
        (site = Initial_request \<or> site = Retry_request) \<longrightarrow>
        url q = ''/api/loom/operations/'' @ operationId @ ''/manage-targets/'' \<and> method q = ''POST'' \<and>
        payload q = Some (targets_payload tst))"
proof (intro conjI allI impI)
  show "object_keys (members_payload (save_diff m)) = [''add'', ''updates'', ''remove'']"
    by (simp add: members_payload_def)
  note b = fold_diff_step_buckets[of "roster_values m" "\<lparr>add = [], updates = [], remove = []\<rparr>"]
  from b show "add (save_diff m)
     = map (\<lambda>e. (profile_id e, affiliation e)) (filter (\<lambda>e. isNew e \<and> \<not> isRemoved e) (roster_values m))"
    by (simp add: save_diff_def roster_values_def)
  from b show "remove (save_diff m)
     = map profile_id (filter (\<lambda>e. isRemoved e \<and> \<not> isNew e) (roster_values m))"
    by (simp add: save_diff_def roster_values_def)
  from b show "updates (save_diff m)
     = map (\<lambda>e. (profile_id e, affiliation e))
         (filter (\<lambda>e. isNew e = isRemoved e \<and> affiliation e \<noteq> originalAffiliation e) (roster_values m))"
    by (simp add: save_diff_def roster_values_def)
  show "personnel_payload pst
     = JObj [(''assignments'', JArr (map assignment_json (map snd (assigned pst))))]"
    by (simp add: personnel_payload_def)
  show "targets_payload tst
     = JObj [(''profile_ids'', JArr (map JNum (map target_id
                (filter (\<lambda>t. target_type t = ''profile'') (map snd (assigned_targets tst)))))),
             (''faction_ids'', JArr (map JNum (map target_id
                (filter (\<lambda>t. target_type t = ''faction'') (map snd (assigned_targets tst))))))]"
    using fold_targets_step[of "map snd (assigned_targets tst)" "\<lparr>profile_ids = [], faction_ids = []\<rparr>"]
    by (simp add: targets_payload_def Let_def)
next
  fix site q x
  assume "Fetch site q x \<in> set (events_since s (members_save_click parse factionId m s)) \<and>
        (site = Initial_request \<or> site = Retry_request)"
  then have "url q = ''/api/scales/factions/'' @ factionId @ ''/manage-members/'' \<and> method q = ''POST'' \<and>
        payload q = Some (members_payload (save_diff m))"
    using members_save_click_requests by blast
  then show "url q = ''/api/scales/factions/'' @ factionId @ ''/manage-members/''" "method q = ''POST''"
    "payload q = Some (members_payload (save_diff m))"
    by blast+
next
  fix site q x
  assume "Fetch site q x \<in> set (events_since s (personnel_save_click parse operationId pst s)) \<and>
        (site = Initial_request \<or> site = Retry_request)"
  then have "url q = ''/api/loom/operations/'' @ operationId @ ''/manage-personnel/'' \<and> method q = ''POST'' \<and>
        payload q = Some (personnel_payload pst)"
    using personnel_save_click_requests by blast
  then show "url q = ''/api/loom/operations/'' @ operationId @ ''/manage-personnel/''" "method q = ''POST''"
    "payload q = Some (personnel_payload pst)"
    by blast+
next
  fix site q x
  assume "Fetch site q x \<in> set (events_since s (targets_save_click parse operationId tst s)) \<and>
        (site = Initial_request \<or> site = Retry_request)"
  then have "url q = ''/api/loom/operations/'' @ operationId @ ''/manage-targets/'' \<and> method q = ''POST'' \<and>
        payload q = Some (targets_payload tst)"
    using targets_save_click_requests by blast
  then show "url q = ''/api/loom/operations/'' @ operationId @ ''/manage-targets/''" "method q = ''POST''"
    "payload q = Some (targets_payload tst)"
    by blast+
qed

text \<open>
  An instance: with no token stored and a server that accepts, each of the three commits
  sends one request, and its body is the one the theorem names.
\<close>

theorem roster_commit_payloads_witness:
  "Fetch Initial_request
      \<lparr>url = ''/api/scales/factions/3/manage-members/'', method = ''POST'',
       headers = [(''Content-Type'', ''application/json'')],
       payload = Some (JObj [(''add'', JArr []),
                             (''updates'', JArr [JObj [(''profile_id'', JNum 1), (''affiliation'', JStr ''Leader'')]]),
                             (''remove'', JArr [])])\<rparr> accepted
     \<in> set (events_since (session_with [] [] [(10, accepted)])
          (members_save_click no_claims ''3''
             (roster_after [Initial_data baseline_one, Member_aff_change 1 ''Leader''])
             (session_with [] [] [(10, accepted)]))) \<and>
   Some (JObj [(''add'', JArr []),
               (''updates'', JArr [JObj [(''profile_id'', JNum 1), (''affiliation'', JStr ''Leader'')]]),
               (''remove'', JArr [])])
     = Some (members_payload (save_diff (roster_after [Initial_data baseline_one, Member_aff_change 1 ''Leader'']))) \<and>
   Fetch Initial_request
      \<lparr>url = ''/api/loom/operations/3/manage-personnel/'', method = ''POST'',
       headers = [(''Content-Type'', ''application/json'')],
       payload = Some (JObj [(''assignments'',
                    JArr [JObj [(''agent_id'', JNum 4), (''alias'', JStr ''Kite''),
                                (''role_in_op'', JStr ''Field Agent'')]])])\<rparr> accepted
     \<in> set (events_since (session_with [] [] [(10, accepted)])
          (personnel_save_click no_claims ''3'' one_agent (session_with [] [] [(10, accepted)]))) \<and>
   Fetch Initial_request
      \<lparr>url = ''/api/loom/operations/3/manage-targets/'', method = ''POST'',
       headers = [(''Content-Type'', ''application/json'')],
       payload = Some (JObj [(''profile_ids'', JArr [JNum 2]), (''faction_ids'', JArr [JNum 1])])\<rparr> accepted
     \<in> set (events_since (session_with [] [] [(10, accepted)])
          (targets_save_click no_claims ''3'' two_targets (session_with [] [] [(10, accepted)])))"
proof -
  let ?S = "session_with [] [] [(10, accepted)]"
  let ?m = "roster_after [Initial_data baseline_one, Member_aff_change 1 ''Leader'']"
  let ?qm = "\<lparr>url = ''/api/scales/factions/3/manage-members/'', method = ''POST'',
       headers = [(''Content-Type'', ''application/json'')],
       payload = Some (JObj [(''add'', JArr []),
                             (''updates'', JArr [JObj [(''profile_id'', JNum 1), (''affiliation'', JStr ''Leader'')]]),
                             (''remove'', JArr [])])\<rparr>"
  have d: "save_diff ?m = \<lparr>add = [], updates = [(1, ''Leader'')], remove = []\<rparr>"
    by (simp add: roster_defs)
  have hm: "Fetch Initial_request ?qm accepted
      \<in> set (events_since ?S (members_save_click no_claims ''3'' ?m ?S))"
    by (simp add: d eval_defs commit_defs)
  have hp: "Fetch Initial_request
      \<lparr>url = ''/api/loom/operations/3/manage-personnel/'', method = ''POST'',
       headers = [(''Content-Type'', ''application/json'')],
       payload = Some (JObj [(''assignments'',
                    JArr [JObj [(''agent_id'', JNum 4), (''alias'', JStr ''Kite''),
                                (''role_in_op'', JStr ''Field Agent'')]])])\<rparr> accepted
     \<in> set (events_since ?S (personnel_save_click no_claims ''3'' one_agent ?S))"
    by (simp add: eval_defs commit_defs)
  have ht: "Fetch Initial_request
      \<lparr>url = ''/api/loom/operations/3/manage-targets/'', method = ''POST'',
       headers = [(''Content-Type'', ''application/json'')],
       payload = Some (JObj [(''profile_ids'', JArr [JNum 2]), (''faction_ids'', JArr [JNum 1])])\<rparr> accepted
     \<in> set (events_since ?S (targets_save_click no_claims ''3'' two_targets ?S))"
    by (simp add: eval_defs commit_defs)
  note T = roster_commit_payloads[of ?m one_agent two_targets ?S no_claims "''3''" "''3''"]
  from T hm have "payload ?qm = Some (members_payload (save_diff ?m))"
    by blast
  then have "Some (JObj [(''add'', JArr []),
               (''updates'', JArr [JObj [(''profile_id'', JNum 1), (''affiliation'', JStr ''Leader'')]]),
               (''remove'', JArr [])]) = Some (members_payload (save_diff ?m))"
    by simp
  with hm hp ht show ?thesis by blast
qed

text \<open>
  C7, as stated, fails for two of the three dialogs: the body that the personnel commit
  sends has the single key assignments, and the body of the targets commit has the keys
  profile_ids and faction_ids.
\<close>

theorem roster_commit_payloads_counterexample:
  "events_since (session_with [] [] [(10, accepted)])
      (personnel_save_click no_claims ''9'' one_agent (session_with [] [] [(10, accepted)]))
     = [Fetch Initial_request
          \<lparr>url = ''/api/loom/operations/9/manage-personnel/'', method = ''POST'',
           headers = [(''Content-Type'', ''application/json'')],
           payload = Some (JObj [(''assignments'',
                        JArr [JObj [(''agent_id'', JNum 4), (''alias'', JStr ''Kite''),
                                    (''role_in_op'', JStr ''Field Agent'')]])])\<rparr> accepted,
        ShowMessage ''Personnel roster updated.'' ''info'', CloseModal, OpenLoomOperationDetail ''9''] \<and>
   object_keys (personnel_payload one_agent) = [''assignments''] \<and>
   object_keys (targets_payload two_targets) = [''profile_ids'', ''faction_ids'']"
  by (simp add: eval_defs commit_defs)


section \<open>Lemmas: the directory cache across a call of api\<close>

lemma call_cache [simp]:
  "factionDirectoryCache (call_handleUnauthorizedResponse s) =
     (if sessionInvalidated s then factionDirectoryCache s else empty_directory)"
  by (simp add: call_handleUnauthorizedResponse_def hur_noop hur_clears)

lemma set_tokens_access_flag [simp]:
  "sessionInvalidated (set_tokens_access a s) = sessionInvalidated s"
  by (simp add: set_tokens_access_def)

lemma fetch_cache:
  assumes "fetch site req s = (r, s1)"
  shows "trace s1 = trace s @ [Fetch site req r]
       \<and> factionDirectoryCache s1 = factionDirectoryCache s
       \<and> (\<not> sessionInvalidated s \<longrightarrow> \<not> sessionInvalidated s1)"
  using assms
  by (auto simp add: fetch_def flag_advance split: list.splits)

lemma reactive_refresh_cache:
  assumes "reactive_refresh path opts res s = (r, s')"
  shows "\<exists>evs. trace s' = trace s @ evs \<and>
     (Called_handleUnauthorizedResponse \<notin> set evs \<longrightarrow>
        factionDirectoryCache s' = factionDirectoryCache s \<and>
        (\<not> sessionInvalidated s \<longrightarrow> \<not> sessionInvalidated s')) \<and>
     (factionDirectoryCache s' = factionDirectoryCache s \<or> factionDirectoryCache s' = empty_directory) \<and>
     (\<not> sessionInvalidated s \<and> Called_handleUnauthorizedResponse \<in> set evs \<longrightarrow>
        factionDirectoryCache s' = empty_directory)"
  using assms
  by (auto simp add: reactive_refresh_def Let_def
      split: if_splits prod.splits fetch_result.splits sum.splits dest!: fetch_cache)

lemma refresh_before_request_cache:
  assumes "refresh_before_request s = (r, s')"
  shows "\<exists>evs. trace s' = trace s @ evs \<and>
     (Called_handleUnauthorizedResponse \<notin> set evs \<longrightarrow>
        factionDirectoryCache s' = factionDirectoryCache s \<and>
        (\<not> sessionInvalidated s \<longrightarrow> \<not> sessionInvalidated s')) \<and>
     (factionDirectoryCache s' = factionDirectoryCache s \<or> factionDirectoryCache s' = empty_directory) \<and>
     (\<not> sessionInvalidated s \<and> Called_handleUnauthorizedResponse \<in> set evs \<longrightarrow>
        factionDirectoryCache s' = empty_directory)"
  using assms
  by (auto simp add: refresh_before_request_def
      split: if_splits prod.splits fetch_result.splits sum.splits dest!: fetch_cache)

lemma proactive_refresh_cache:
  assumes "proactive_refresh parse tok s = (r, s')"
  shows "\<exists>evs. trace s' = trace s @ evs \<and>
     (Called_handleUnauthorizedResponse \<notin> set evs \<longrightarrow>
        factionDirectoryCache s' = factionDirectoryCache s \<and>
        (\<not> sessionInvalidated s \<longrightarrow> \<not> sessionInvalidated s')) \<and>
     (factionDirectoryCache s' = factionDirectoryCache s \<or> factionDirectoryCache s' = empty_directory) \<and>
     (\<not> sessionInvalidated s \<and> Called_handleUnauthorizedResponse \<in> set evs \<longrightarrow>
        factionDirectoryCache s' = empty_directory)"
proof (cases "tok \<noteq> [] \<and> token_expiring (decodeJwt parse tok) (clock s)")
  case True
  then have "refresh_before_request s = (r, s')"
    using assms by (simp add: proactive_refresh_due)
  then show ?thesis by (rule refresh_before_request_cache)
next
  case False
  then have "s' = s"
    using assms by (simp add: proactive_refresh_skip)
  then show ?thesis by simp
qed

lemma cache_steps:
  assumes "trace s1 = trace s @ evs1"
    and "(Called_handleUnauthorizedResponse \<notin> set evs1 \<longrightarrow>
        factionDirectoryCache s1 = factionDirectoryCache s \<and>
        (\<not> sessionInvalidated s \<longrightarrow> \<not> sessionInvalidated s1)) \<and>
     (factionDirectoryCache s1 = factionDirectoryCache s \<or> factionDirectoryCache s1 = empty_directory) \<and>
     (\<not> sessionInvalidated s \<and> Called_handleUnauthorizedResponse \<in> set evs1 \<longrightarrow>
        factionDirectoryCache s1 = empty_directory)"
    and "trace s2 = trace s1 @ evs2"
    and "(Called_handleUnauthorizedResponse \<notin> set evs2 \<longrightarrow>
        factionDirectoryCache s2 = factionDirectoryCache s1 \<and>
        (\<not> sessionInvalidated s1 \<longrightarrow> \<not> sessionInvalidated s2)) \<and>
     (factionDirectoryCache s2 = factionDirectoryCache s1 \<or> factionDirectoryCache s2 = empty_directory) \<and>
     (\<not> sessionInvalidated s1 \<and> Called_handleUnauthorizedResponse \<in> set evs2 \<longrightarrow>
        factionDirectoryCache s2 = empty_directory)"
  shows "(Called_handleUnauthorizedResponse \<notin> set (events_since s s2) \<longrightarrow>
        factionDirectoryCache s2 = factionDirectoryCache s \<and>
        (\<not> sessionInvalidated s \<longrightarrow> \<not> sessionInvalidated s2)) \<and>
     (factionDirectoryCache s2 = factionDirectoryCache s \<or> factionDirectoryCache s2 = empty_directory) \<and>
     (\<not> sessionInvalidated s \<and> Called_handleUnauthorizedResponse \<in> set (events_since s s2) \<longrightarrow>
        factionDirectoryCache s2 = empty_directory)"
proof -
  have ev: "events_since s s2 = evs1 @ evs2"
    using assms(1,3) by (simp add: events_since_def)
  show ?thesis
    unfolding ev using assms(2,4) by (cases "Called_handleUnauthorizedResponse \<in> set evs1") auto
qed

text \<open>
  What a call of api does to the cached directory: nothing, unless it calls
  handleUnauthorizedResponse; and then it empties it, if the session was not already
  invalidated when api was called.
\<close>

lemma api_cache:
  assumes "api parse path opts s = (r, s')"
  shows "(Called_handleUnauthorizedResponse \<notin> set (events_since s s') \<longrightarrow>
        factionDirectoryCache s' = factionDirectoryCache s \<and>
        (\<not> sessionInvalidated s \<longrightarrow> \<not> sessionInvalidated s')) \<and>
     (factionDirectoryCache s' = factionDirectoryCache s \<or> factionDirectoryCache s' = empty_directory) \<and>
     (\<not> sessionInvalidated s \<and> Called_handleUnauthorizedResponse \<in> set (events_since s s') \<longrightarrow>
        factionDirectoryCache s' = empty_directory)"
proof -
  from api_shape[OF assms] obtain r1 s1 where
    p: "proactive_refresh parse (tokens_access s) s = (r1, s1)" and
    sh: "(\<exists>e. r1 = Inl e \<and> r = Inl e \<and> s' = s1) \<or>
            (\<exists>tok x s2. r1 = Inr tok \<and>
                fetch Initial_request (api_request path opts (attach_token tok (request_headers opts))) s1 = (x, s2) \<and>
                ((x = NetworkError \<and> r = Inl Rejected \<and> s' = s2) \<or>
                 (\<exists>res. x = Response res \<and> status res \<noteq> 401 \<and> r = Inr res \<and> s' = s2) \<or>
                 (\<exists>res. x = Response res \<and> status res = 401 \<and> reactive_refresh path opts res s2 = (r, s'))))"
    by blast
  from proactive_refresh_cache[OF p] obtain evs1 where
    t1: "trace s1 = trace s @ evs1" and
    q1: "(Called_handleUnauthorizedResponse \<notin> set evs1 \<longrightarrow>
        factionDirectoryCache s1 = factionDirectoryCache s \<and>
        (\<not> sessionInvalidated s \<longrightarrow> \<not> sessionInvalidated s1)) \<and>
     (factionDirectoryCache s1 = factionDirectoryCache s \<or> factionDirectoryCache s1 = empty_directory) \<and>
     (\<not> sessionInvalidated s \<and> Called_handleUnauthorizedResponse \<in> set evs1 \<longrightarrow>
        factionDirectoryCache s1 = empty_directory)"
    by blast
  from sh consider
    (thrown) "s' = s1"
    | (sent) x tok s2 where
        "fetch Initial_request (api_request path opts (attach_token tok (request_headers opts))) s1 = (x, s2)"
        "s' = s2"
    | (again) x tok s2 res where
        "fetch Initial_request (api_request path opts (attach_token tok (request_headers opts))) s1 = (x, s2)"
        "reactive_refresh path opts res s2 = (r, s')"
    by blast
  then show ?thesis
  proof cases
    case thrown
    have "trace s' = trace s1 @ []" using thrown by simp
    from cache_steps[OF t1 q1 this] thrown show ?thesis by simp
  next
    case sent
    from fetch_cache[OF sent(1)] sent(2) have
      t2: "trace s' = trace s1 @ [Fetch Initial_request
             (api_request path opts (attach_token tok (request_headers opts))) x]" and
      q2: "factionDirectoryCache s' = factionDirectoryCache s1"
          "\<not> sessionInvalidated s1 \<longrightarrow> \<not> sessionInvalidated s'"
      by simp_all
    from cache_steps[OF t1 q1 t2] q2 show ?thesis by simp
  next
    case again
    from fetch_cache[OF again(1)] have
      t2: "trace s2 = trace s1 @ [Fetch Initial_request
             (api_request path opts (attach_token tok (request_headers opts))) x]" and
      q2: "factionDirectoryCache s2 = factionDirectoryCache s1"
          "\<not> sessionInvalidated s1 \<longrightarrow> \<not> sessionInvalidated s2"
      by simp_all
    from reactive_refresh_cache[OF again(2)] obtain evs3 where
      t3: "trace s' = trace s2 @ evs3" and
      q3: "(Called_handleUnauthorizedResponse \<notin> set evs3 \<longrightarrow>
        factionDirectoryCache s' = factionDirectoryCache s2 \<and>
        (\<not> sessionInvalidated s2 \<longrightarrow> \<not> sessionInvalidated s')) \<and>
     (factionDirectoryCache s' = factionDirectoryCache s2 \<or> factionDirectoryCache s' = empty_directory) \<and>
     (\<not> sessionInvalidated s2 \<and> Called_handleUnauthorizedResponse \<in> set evs3 \<longrightarrow>
        factionDirectoryCache s' = empty_directory)"
      by blast
    have t23: "trace s' = trace s1 @
        (Fetch Initial_request (api_request path opts (attach_token tok (request_headers opts))) x # evs3)"
      using t2 t3 by simp
    have q23: "(Called_handleUnauthorizedResponse \<notin> set
          (Fetch Initial_request (api_request path opts (attach_token tok (request_headers opts))) x # evs3) \<longrightarrow>
        factionDirectoryCache s' = factionDirectoryCache s1 \<and>
        (\<not> sessionInvalidated s1 \<longrightarrow> \<not> sessionInvalidated s')) \<and>
     (factionDirectoryCache s' = factionDirectoryCache s1 \<or> factionDirectoryCache s' = empty_directory) \<and>
     (\<not> sessionInvalidated s1 \<and> Called_handleUnauthorizedResponse \<in> set
          (Fetch Initial_request (api_request path opts (attach_token tok (request_headers opts))) x # evs3) \<longrightarrow>
        factionDirectoryCache s' = empty_directory)"
      using q2 q3 by auto
    from cache_steps[OF t1 q1 t23 q23] show ?thesis .
  qed
qed


section \<open>Lemmas: the faction directory\<close>

lemma find_append_cases:
  "List.find P (xs @ ys) = (case List.find P xs of None \<Rightarrow> List.find P ys | Some x \<Rightarrow> Some x)"
  by (induction xs) simp_all

lemma named_items_Cons:
  "named_items (item # items) =
     (case item of None \<Rightarrow> named_items items
      | Some it \<Rightarrow> if name it = [] then named_items items else it # named_items items)"
  by (simp add: named_items_def split: option.splits)

lemma named_items_Nil [simp]: "named_items [] = []"
  by (simp add: named_items_def)

lemma index_item_lookup:
  "map_of (fst (index_item item acc)) n =
     (case item of
        None \<Rightarrow> map_of (fst acc) n
      | Some it \<Rightarrow> if name it \<noteq> [] \<and> name it = n then Some it else map_of (fst acc) n)"
  "map_of (snd (index_item item acc)) k =
     (case item of
        None \<Rightarrow> map_of (snd acc) k
      | Some it \<Rightarrow> if name it \<noteq> [] \<and> id_key it = k then Some it else map_of (snd acc) k)"
  by (auto simp add: index_item_def AList.update_conv' split: option.splits)

lemma fold_index_item_byName:
  "map_of (fst (fold index_item items acc)) n =
     (case List.find (\<lambda>it. name it = n) (rev (named_items items)) of
        None \<Rightarrow> map_of (fst acc) n
      | Some it \<Rightarrow> Some it)"
proof (induction items arbitrary: acc)
  case Nil
  then show ?case by simp
next
  case (Cons item items)
  have "map_of (fst (fold index_item (item # items) acc)) n =
     (case List.find (\<lambda>it. name it = n) (rev (named_items items)) of
        None \<Rightarrow> map_of (fst (index_item item acc)) n
      | Some it \<Rightarrow> Some it)"
    using Cons.IH[of "index_item item acc"] by simp
  then show ?case
    by (auto simp add: index_item_lookup named_items_Cons find_append_cases split: option.splits)
qed

lemma fold_index_item_byId:
  "map_of (snd (fold index_item items acc)) k =
     (case List.find (\<lambda>it. id_key it = k) (rev (named_items items)) of
        None \<Rightarrow> map_of (snd acc) k
      | Some it \<Rightarrow> Some it)"
proof (induction items arbitrary: acc)
  case Nil
  then show ?case by simp
next
  case (Cons item items)
  have "map_of (snd (fold index_item (item # items) acc)) k =
     (case List.find (\<lambda>it. id_key it = k) (rev (named_items items)) of
        None \<Rightarrow> map_of (snd (index_item item acc)) k
      | Some it \<Rightarrow> Some it)"
    using Cons.IH[of "index_item item acc"] by simp
  then show ?case
    by (auto simp add: index_item_lookup named_items_Cons find_append_cases split: option.splits)
qed

lemma build_directory_simps:
  "list (build_directory items now) = items"
  "timestamp (build_directory items now) = now"
  "map_of (byName (build_directory items now)) n = List.find (\<lambda>it. name it = n) (rev (named_items items))"
  "map_of (byId (build_directory items now)) k = List.find (\<lambda>it. id_key it = k) (rev (named_items items))"
  by (simp_all add: build_directory_def Let_def fold_index_item_byName fold_index_item_byId
      split: option.splits)

lemma getFactionDirectory_fetches:
  assumes "force \<or> list (factionDirectoryCache s) = []
             \<or> \<not> clock s - timestamp (factionDirectoryCache s) < 60000"
    and "api parse ''/api/scales/factions/'' no_opts s = (ra, sa)"
  shows "getFactionDirectory parse force s =
     (case ra of
        Inl e \<Rightarrow> (Inl (Api_error e), sa)
      | Inr res \<Rightarrow>
          if \<not> ok res then (Inl (Failed_status ''Failed to fetch faction directory'' (status res)), sa)
          else (case body res of
                  Json_array items \<Rightarrow>
                    (Inr (build_directory items (clock s)),
                     sa\<lparr>factionDirectoryCache := build_directory items (clock s)\<rparr>)
                | _ \<Rightarrow> (Inl Not_a_list, sa)))"
  using assms by (auto simp add: getFactionDirectory_def Let_def split: sum.splits body.splits)

section \<open>Claims about the faction directory\<close>

text \<open>
  C8, as the code has it. Without force, a cached snapshot with a non-empty list and a
  timestamp less than 60000 ms old is returned as it is, and the state, its trace
  included, is unchanged: nothing is sent. With force (or a stale or empty snapshot) the
  function never answers from the cache: it calls api for the faction list. When api
  returns an ok response whose body is an array, the result and the new cache are one
  snapshot built from that array and the time of the call: the list, a by-name and a
  by-id index in which the last named item of a key wins, and the timestamp. Otherwise
  (api throws, the response is not ok, or the body is not an array) the function throws
  and builds nothing: the state is the one api left. Its snapshot is the old one or the
  empty one: the old one when api did not call handleUnauthorizedResponse, the empty one
  when api called it and the session was not already invalidated.
\<close>

theorem getFactionDirectory_cache_or_fetch:
  "(list (factionDirectoryCache s) \<noteq> [] \<and> clock s - timestamp (factionDirectoryCache s) < 60000 \<longrightarrow>
      getFactionDirectory parse False s = (Inr (factionDirectoryCache s), s)) \<and>
   (api parse ''/api/scales/factions/'' no_opts s = (Inr res, sa) \<and> ok res \<and> body res = Json_array items \<longrightarrow>
      getFactionDirectory parse True s =
        (Inr (build_directory items (clock s)),
         sa\<lparr>factionDirectoryCache := build_directory items (clock s)\<rparr>)) \<and>
   (api parse ''/api/scales/factions/'' no_opts s = (ra, sa) \<and>
    (\<forall>res items. ra = Inr res \<and> ok res \<longrightarrow> body res \<noteq> Json_array items) \<longrightarrow>
      isl (fst (getFactionDirectory parse True s)) \<and> snd (getFactionDirectory parse True s) = sa \<and>
      (factionDirectoryCache (snd (getFactionDirectory parse True s)) = factionDirectoryCache s \<or>
       factionDirectoryCache (snd (getFactionDirectory parse True s)) = empty_directory) \<and>
      (Called_handleUnauthorizedResponse \<notin> set (events_since s (snd (getFactionDirectory parse True s))) \<longrightarrow>
         factionDirectoryCache (snd (getFactionDirectory parse True s)) = factionDirectoryCache s) \<and>
      (\<not> sessionInvalidated s \<and>
       Called_handleUnauthorizedResponse \<in> set (events_since s (snd (getFactionDirectory parse True s))) \<longrightarrow>
         factionDirectoryCache (snd (getFactionDirectory parse True s)) = empty_directory)) \<and>
   list (build_directory items now) = items \<and>
   timestamp (build_directory items now) = now \<and>
   map_of (byName (build_directory items now)) n
     = List.find (\<lambda>it. name it = n) (rev (named_items items)) \<and>
   map_of (byId (build_directory items now)) k
     = List.find (\<lambda>it. id_key it = k) (rev (named_items items))"
proof (intro conjI impI)
  show "getFactionDirectory parse False s = (Inr (factionDirectoryCache s), s)"
    if "list (factionDirectoryCache s) \<noteq> [] \<and> clock s - timestamp (factionDirectoryCache s) < 60000"
    using that by (simp add: getFactionDirectory_def Let_def)
  show "getFactionDirectory parse True s =
        (Inr (build_directory items (clock s)),
         sa\<lparr>factionDirectoryCache := build_directory items (clock s)\<rparr>)"
    if "api parse ''/api/scales/factions/'' no_opts s = (Inr res, sa) \<and> ok res \<and> body res = Json_array items"
    using that getFactionDirectory_fetches[of True s parse "Inr res" sa] by simp
  assume a: "api parse ''/api/scales/factions/'' no_opts s = (ra, sa) \<and>
    (\<forall>res items. ra = Inr res \<and> ok res \<longrightarrow> body res \<noteq> Json_array items)"
  then have g: "getFactionDirectory parse True s =
     (case ra of
        Inl e \<Rightarrow> (Inl (Api_error e), sa)
      | Inr res \<Rightarrow>
          if \<not> ok res then (Inl (Failed_status ''Failed to fetch faction directory'' (status res)), sa)
          else (case body res of
                  Json_array items \<Rightarrow>
                    (Inr (build_directory items (clock s)),
                     sa\<lparr>factionDirectoryCache := build_directory items (clock s)\<rparr>)
                | _ \<Rightarrow> (Inl Not_a_list, sa)))"
    using getFactionDirectory_fetches[of True s parse ra sa] by simp
  from a show "isl (fst (getFactionDirectory parse True s))"
    unfolding g by (auto split: sum.splits body.splits)
  from a show st: "snd (getFactionDirectory parse True s) = sa"
    unfolding g by (auto split: sum.splits body.splits)
  from a have "api parse ''/api/scales/factions/'' no_opts s = (ra, sa)" by simp
  note c = api_cache[OF this]
  from c show "factionDirectoryCache (snd (getFactionDirectory parse True s)) = factionDirectoryCache s \<or>
       factionDirectoryCache (snd (getFactionDirectory parse True s)) = empty_directory"
    unfolding st by blast
  show "factionDirectoryCache (snd (getFactionDirectory parse True s)) = factionDirectoryCache s"
    if "Called_handleUnauthorizedResponse \<notin> set (events_since s (snd (getFactionDirectory parse True s)))"
    using that c unfolding st by blast
  show "factionDirectoryCache (snd (getFactionDirectory parse True s)) = empty_directory"
    if "\<not> sessionInvalidated s \<and>
       Called_handleUnauthorizedResponse \<in> set (events_since s (snd (getFactionDirectory parse True s)))"
    using that c unfolding st by blast
qed (simp_all add: build_directory_simps)


lemmas directory_defs = cached_session_def build_directory_def index_item_def crows_def
  getFactionDirectory_def empty_directory_def

text \<open>
  Three instances, on a session whose cache holds the one faction Crows, built at time 0.
  At time 30000 a call without force answers from the cache, and a call with force
  rebuilds the snapshot from the list the server gives. Before a server that answers 500,
  a call with force throws and the snapshot is the old one. Before a server that answers
  401, with no refresh token stored, api calls handleUnauthorizedResponse: the call with
  force throws and the snapshot is the empty one.
\<close>

theorem getFactionDirectory_cache_or_fetch_witness:
  "list (factionDirectoryCache (advance 30000 (cached_session [(10, directory_answer [Some crows, None])]))) \<noteq> [] \<and>
   clock (advance 30000 (cached_session [(10, directory_answer [Some crows, None])]))
     - timestamp (factionDirectoryCache (advance 30000 (cached_session [(10, directory_answer [Some crows, None])])))
     < 60000 \<and>
   getFactionDirectory no_claims False (advance 30000 (cached_session [(10, directory_answer [Some crows, None])]))
     = (Inr (factionDirectoryCache (advance 30000 (cached_session [(10, directory_answer [Some crows, None])]))),
        advance 30000 (cached_session [(10, directory_answer [Some crows, None])])) \<and>
   fst (api no_claims ''/api/scales/factions/'' no_opts
          (advance 30000 (cached_session [(10, directory_answer [Some crows, None])])))
     = Inr \<lparr>status = 200, body = Json_array [Some crows, None]\<rparr> \<and>
   fst (getFactionDirectory no_claims True (advance 30000 (cached_session [(10, directory_answer [Some crows, None])])))
     = Inr (build_directory [Some crows, None] 30000) \<and>
   fst (api no_claims ''/api/scales/factions/'' no_opts (cached_session [(10, server_error)]))
     = Inr \<lparr>status = 500, body = Unparseable\<rparr> \<and>
   isl (fst (getFactionDirectory no_claims True (cached_session [(10, server_error)]))) \<and>
   factionDirectoryCache (snd (getFactionDirectory no_claims True (cached_session [(10, server_error)])))
     = factionDirectoryCache (cached_session [(10, server_error)]) \<and>
   fst (api no_claims ''/api/scales/factions/'' no_opts (cached_session [(10, unauthorized)]))
     = Inr \<lparr>status = 401, body = Json_null\<rparr> \<and>
   \<not> sessionInvalidated (cached_session [(10, unauthorized)]) \<and>
   isl (fst (getFactionDirectory no_claims True (cached_session [(10, unauthorized)]))) \<and>
   list (factionDirectoryCache (cached_session [(10, unauthorized)])) = [Some crows] \<and>
   factionDirectoryCache (snd (getFactionDirectory no_claims True (cached_session [(10, unauthorized)])))
     = empty_directory"
proof -
  let ?S = "advance 30000 (cached_session [(10, directory_answer [Some crows, None])])"
  let ?E = "cached_session [(10, server_error)]"
  let ?F = "cached_session [(10, unauthorized)]"
  let ?a = "api no_claims ''/api/scales/factions/'' no_opts ?S"
  let ?e = "api no_claims ''/api/scales/factions/'' no_opts ?E"
  let ?f = "api no_claims ''/api/scales/factions/'' no_opts ?F"
  let ?res = "\<lparr>status = 200, body = Json_array [Some crows, None]\<rparr>"
  have h1: "list (factionDirectoryCache ?S) \<noteq> [] \<and> clock ?S - timestamp (factionDirectoryCache ?S) < 60000"
    by (simp add: directory_defs)
  have c: "clock ?S = 30000"
    by (simp add: directory_defs)
  have a1: "fst ?a = Inr ?res"
    by (simp add: eval_defs directory_defs)
  have h2: "?a = (Inr ?res, snd ?a) \<and> ok ?res \<and> body ?res = Json_array [Some crows, None]"
    using a1 by (simp add: prod_eq_iff ok_def)
  have e1: "fst ?e = Inr \<lparr>status = 500, body = Unparseable\<rparr>"
    by (simp add: eval_defs directory_defs)
  have h3: "?e = (fst ?e, snd ?e) \<and>
      (\<forall>res items. fst ?e = Inr res \<and> ok res \<longrightarrow> body res \<noteq> Json_array items)"
    using e1 by (simp add: prod_eq_iff ok_def)
  have e2: "Called_handleUnauthorizedResponse \<notin> set (events_since ?E (snd ?e))"
    by (simp add: eval_defs directory_defs)
  have f1: "fst ?f = Inr \<lparr>status = 401, body = Json_null\<rparr>"
    by (simp add: eval_defs directory_defs)
  have h4: "?f = (fst ?f, snd ?f) \<and>
      (\<forall>res items. fst ?f = Inr res \<and> ok res \<longrightarrow> body res \<noteq> Json_array items)"
    using f1 by (simp add: prod_eq_iff ok_def)
  have f2: "Called_handleUnauthorizedResponse \<in> set (events_since ?F (snd ?f))"
    by (simp add: eval_defs directory_defs)
  have f3: "\<not> sessionInvalidated ?F"
    by (simp add: directory_defs)
  have f4: "list (factionDirectoryCache ?F) = [Some crows]"
    by (simp add: directory_defs)
  note T = getFactionDirectory_cache_or_fetch[of ?S no_claims ?res "snd ?a" "[Some crows, None]"]
  note U = getFactionDirectory_cache_or_fetch[of ?E no_claims _ "snd ?e" _ "fst ?e"]
  note V = getFactionDirectory_cache_or_fetch[of ?F no_claims _ "snd ?f" _ "fst ?f"]
  from T h1 have r1: "getFactionDirectory no_claims False ?S = (Inr (factionDirectoryCache ?S), ?S)"
    by blast
  from T h2 have "getFactionDirectory no_claims True ?S =
        (Inr (build_directory [Some crows, None] (clock ?S)),
         (snd ?a)\<lparr>factionDirectoryCache := build_directory [Some crows, None] (clock ?S)\<rparr>)"
    by blast
  then have r2: "fst (getFactionDirectory no_claims True ?S) = Inr (build_directory [Some crows, None] 30000)"
    using c by simp
  from U h3 have r3: "isl (fst (getFactionDirectory no_claims True ?E))"
    by blast
  from U h3 have s3: "snd (getFactionDirectory no_claims True ?E) = snd ?e"
    by blast
  from U h3 have "Called_handleUnauthorizedResponse \<notin> set (events_since ?E (snd (getFactionDirectory no_claims True ?E))) \<longrightarrow>
      factionDirectoryCache (snd (getFactionDirectory no_claims True ?E)) = factionDirectoryCache ?E"
    by blast
  with e2 s3 have r4: "factionDirectoryCache (snd (getFactionDirectory no_claims True ?E)) = factionDirectoryCache ?E"
    by simp
  from V h4 have r5: "isl (fst (getFactionDirectory no_claims True ?F))"
    by blast
  from V h4 have s5: "snd (getFactionDirectory no_claims True ?F) = snd ?f"
    by blast
  from V h4 have "\<not> sessionInvalidated ?F \<and>
      Called_handleUnauthorizedResponse \<in> set (events_since ?F (snd (getFactionDirectory no_claims True ?F))) \<longrightarrow>
      factionDirectoryCache (snd (getFactionDirectory no_claims True ?F)) = empty_directory"
    by blast
  with f2 f3 s5 have r6: "factionDirectoryCache (snd (getFactionDirectory no_claims True ?F)) = empty_directory"
    by simp
  from h1 r1 a1 r2 e1 r3 r4 f1 f3 r5 f4 r6 show ?thesis by blast
qed

text \<open>
  C8, as stated, fails: with force, when the server answers 500, the function throws and
  the cached snapshot is still the old one, not rebuilt and not replaced.
\<close>

theorem getFactionDirectory_force_counterexample:
  "fst (getFactionDirectory no_claims True (cached_session [(10, server_error)]))
     = Inl (Failed_status ''Failed to fetch faction directory'' 500) \<and>
   factionDirectoryCache (snd (getFactionDirectory no_claims True (cached_session [(10, server_error)])))
     = factionDirectoryCache (cached_session [(10, server_error)]) \<and>
   list (factionDirectoryCache (cached_session [(10, server_error)])) = [Some crows]"
  by (simp add: eval_defs directory_defs)


subsection \<open>resolveFactionName\<close>

lemma scan_list_find:
  "scan_list toLowerCase lower items = List.find (\<lambda>label. toLowerCase label = lower) (labels items)"
  by (induction items) (simp_all add: labels_def Let_def)

lemma named_items_labels:
  "n \<noteq> [] \<Longrightarrow> (\<exists>it \<in> set (named_items items). name it = n) \<longleftrightarrow> n \<in> set (labels items)"
  by (induction items) (auto simp add: named_items_Cons labels_def split: option.splits)

lemma find_name_None:
  "List.find (\<lambda>it. name it = n) xs = None \<longleftrightarrow> (\<forall>it \<in> set xs. name it \<noteq> n)"
  by (auto simp add: find_None_iff)

lemma find_name_Some:
  "List.find (\<lambda>it. name it = n) xs = Some it \<Longrightarrow> name it = n"
  by (auto simp add: find_Some_iff)

text \<open>The by-name index of a built snapshot holds a name exactly when the list has that label.\<close>

lemma byName_built:
  assumes "n \<noteq> []"
  shows "(n \<in> set (labels items) \<longrightarrow>
            (\<exists>it. map_of (byName (build_directory items now)) n = Some it \<and> name it = n)) \<and>
         (n \<notin> set (labels items) \<longrightarrow> map_of (byName (build_directory items now)) n = None)"
proof (intro conjI impI)
  assume "n \<in> set (labels items)"
  then have "\<exists>it \<in> set (rev (named_items items)). name it = n"
    using named_items_labels[OF assms, of items] by simp
  then have "List.find (\<lambda>it. name it = n) (rev (named_items items)) \<noteq> None"
    by (simp add: find_name_None)
  then obtain it where f: "List.find (\<lambda>it. name it = n) (rev (named_items items)) = Some it"
    by blast
  from find_name_Some[OF f] f
  show "\<exists>it. map_of (byName (build_directory items now)) n = Some it \<and> name it = n"
    by (simp add: build_directory_simps)
next
  assume "n \<notin> set (labels items)"
  then have "\<forall>it \<in> set (rev (named_items items)). name it \<noteq> n"
    using named_items_labels[OF assms, of items] by simp
  then show "map_of (byName (build_directory items now)) n = None"
    by (simp add: build_directory_simps find_name_None)
qed

lemma resolve_cases:
  "resolveFactionName trim toLowerCase v s =
     (if trim v = [] then []
      else case map_of (byName (factionDirectoryCache s)) (trim v) of
             None \<Rightarrow>
               (case List.find (\<lambda>label. toLowerCase label = toLowerCase (trim v))
                       (labels (list (factionDirectoryCache s))) of
                  Some label \<Rightarrow> label | None \<Rightarrow> trim v)
           | Some exact \<Rightarrow>
               if name exact \<noteq> [] then name exact
               else (case List.find (\<lambda>label. toLowerCase label = toLowerCase (trim v))
                            (labels (list (factionDirectoryCache s))) of
                       Some label \<Rightarrow> label | None \<Rightarrow> trim v))"
  by (simp add: resolveFactionName_def Let_def scan_list_find split: option.splits)

lemma find_label:
  "(case List.find (\<lambda>label. f label = l) ls of Some label \<Rightarrow> label | None \<Rightarrow> d) = r \<Longrightarrow>
     (r = d \<or> r \<in> set ls) \<and> (f d = l \<longrightarrow> f r = l)"
  by (auto simp add: find_Some_iff split: option.splits)

text \<open>
  C9, as the code has it. The strings of the model are sequences of code units, and the
  built-ins trim and toLowerCase are parameters: the statement holds for whatever they do
  to a string, so for every input. resolveFactionName trims the input; a blank input
  gives the empty string. Otherwise a by-name entry under the trimmed input, with a name,
  gives that name; failing that, the first label of the cached list that equals the
  trimmed input up to case is returned; failing that too, the result is the trimmed input
  (not the input as it was given).

  On a snapshot that getFactionDirectory built: when the trimmed input is a label of the
  list, it is the result, whatever labels come before it (exact case first); when it is
  not, the result is the first label equal to it up to case, or the trimmed input itself.
  So the result always equals the trimmed input up to case, and it is the trimmed input
  or a label of the list. resolveFactionName has no operation that throws on a string and
  a snapshot; it is a total function.
\<close>

theorem resolveFactionName_best_effort:
  "(trim v = [] \<longrightarrow> resolveFactionName trim toLowerCase v s = []) \<and>
   (trim v \<noteq> [] \<longrightarrow>
      (\<forall>exact. map_of (byName (factionDirectoryCache s)) (trim v) = Some exact \<and> name exact \<noteq> [] \<longrightarrow>
         resolveFactionName trim toLowerCase v s = name exact) \<and>
      ((\<forall>exact. map_of (byName (factionDirectoryCache s)) (trim v) = Some exact \<longrightarrow> name exact = []) \<longrightarrow>
         resolveFactionName trim toLowerCase v s =
           (case List.find (\<lambda>label. toLowerCase label = toLowerCase (trim v))
                   (labels (list (factionDirectoryCache s))) of
              Some label \<Rightarrow> label
            | None \<Rightarrow> trim v))) \<and>
   (trim v \<noteq> [] \<and> factionDirectoryCache s = build_directory items now \<longrightarrow>
      (trim v \<in> set (labels items) \<longrightarrow> resolveFactionName trim toLowerCase v s = trim v) \<and>
      (trim v \<notin> set (labels items) \<longrightarrow>
         resolveFactionName trim toLowerCase v s =
           (case List.find (\<lambda>label. toLowerCase label = toLowerCase (trim v)) (labels items) of
              Some label \<Rightarrow> label
            | None \<Rightarrow> trim v)) \<and>
      toLowerCase (resolveFactionName trim toLowerCase v s) = toLowerCase (trim v) \<and>
      (resolveFactionName trim toLowerCase v s = trim v \<or>
       resolveFactionName trim toLowerCase v s \<in> set (labels items)))"
proof (intro conjI impI)
  show "resolveFactionName trim toLowerCase v s = []" if "trim v = []"
    using that by (simp add: resolve_cases)
  show "\<forall>exact. map_of (byName (factionDirectoryCache s)) (trim v) = Some exact \<and> name exact \<noteq> [] \<longrightarrow>
         resolveFactionName trim toLowerCase v s = name exact" if "trim v \<noteq> []"
    using that by (simp add: resolve_cases)
  show "resolveFactionName trim toLowerCase v s =
           (case List.find (\<lambda>label. toLowerCase label = toLowerCase (trim v))
                   (labels (list (factionDirectoryCache s))) of
              Some label \<Rightarrow> label
            | None \<Rightarrow> trim v)"
    if "trim v \<noteq> []"
      and "\<forall>exact. map_of (byName (factionDirectoryCache s)) (trim v) = Some exact \<longrightarrow> name exact = []"
    using that by (simp add: resolve_cases split: option.splits)
next
  assume b: "trim v \<noteq> [] \<and> factionDirectoryCache s = build_directory items now"
  then have nz: "trim v \<noteq> []" and bd: "factionDirectoryCache s = build_directory items now"
    by simp_all
  note bn = byName_built[OF nz, of items now]
  show exact: "resolveFactionName trim toLowerCase v s = trim v" if "trim v \<in> set (labels items)"
  proof -
    from bn that obtain it where
      "map_of (byName (build_directory items now)) (trim v) = Some it" "name it = trim v"
      by blast
    with nz bd show ?thesis by (simp add: resolve_cases)
  qed
  show scan: "resolveFactionName trim toLowerCase v s =
           (case List.find (\<lambda>label. toLowerCase label = toLowerCase (trim v)) (labels items) of
              Some label \<Rightarrow> label
            | None \<Rightarrow> trim v)" if "trim v \<notin> set (labels items)"
  proof -
    from bn that have "map_of (byName (build_directory items now)) (trim v) = None"
      by blast
    with nz bd show ?thesis by (simp add: resolve_cases build_directory_simps)
  qed
  have both: "(resolveFactionName trim toLowerCase v s = trim v \<or>
       resolveFactionName trim toLowerCase v s \<in> set (labels items)) \<and>
      (toLowerCase (trim v) = toLowerCase (trim v) \<longrightarrow>
         toLowerCase (resolveFactionName trim toLowerCase v s) = toLowerCase (trim v))"
  proof (cases "trim v \<in> set (labels items)")
    case True
    with exact show ?thesis by simp
  next
    case False
    from find_label[OF scan[OF False, symmetric]] show ?thesis .
  qed
  from both show "toLowerCase (resolveFactionName trim toLowerCase v s) = toLowerCase (trim v)"
    by simp
  from both show "resolveFactionName trim toLowerCase v s = trim v \<or>
       resolveFactionName trim toLowerCase v s \<in> set (labels items)"
    by simp
qed

lemmas resolve_defs = resolveFactionName_def ascii_trim_def ascii_space_def ascii_toLowerCase_def
  ascii_lower_char_def labels_def Let_def

text \<open>
  Instances, with what trim and toLowerCase do to ASCII strings. On the cache that holds
  the one faction Crows: \<open> crows  \<close> is trimmed, is not a label, and gives the label
  \<open>Crows\<close> that equals it up to case; \<open>Crows \<close> gives \<open>Crows\<close>; a blank input
  gives the empty string. On a snapshot built from the list \<open>crows\<close>, \<open>Crows\<close>: the
  input \<open>Crows\<close> gives \<open>Crows\<close>, though the label \<open>crows\<close> comes first.
\<close>

theorem resolveFactionName_best_effort_witness:
  "ascii_trim '' crows  '' = ''crows'' \<and>
   map_of (byName (factionDirectoryCache (cached_session []))) ''crows'' = None \<and>
   resolveFactionName ascii_trim ascii_toLowerCase '' crows  '' (cached_session []) = ''Crows'' \<and>
   map_of (byName (factionDirectoryCache (cached_session []))) (ascii_trim ''Crows '') = Some crows \<and>
   resolveFactionName ascii_trim ascii_toLowerCase ''Crows '' (cached_session []) = ''Crows'' \<and>
   ascii_trim ''   '' = [] \<and>
   resolveFactionName ascii_trim ascii_toLowerCase ''   '' (cached_session []) = [] \<and>
   ascii_trim ''Crows'' \<in> set (labels [Some \<lparr>id_key = ''2'', name = ''crows''\<rparr>, Some crows]) \<and>
   resolveFactionName ascii_trim ascii_toLowerCase ''Crows''
     (initial_state\<lparr>factionDirectoryCache :=
        build_directory [Some \<lparr>id_key = ''2'', name = ''crows''\<rparr>, Some crows] 0\<rparr>) = ''Crows''"
proof -
  let ?S = "cached_session []"
  let ?items = "[Some \<lparr>id_key = ''2'', name = ''crows''\<rparr>, Some crows]"
  let ?B = "initial_state\<lparr>factionDirectoryCache := build_directory ?items 0\<rparr>"
  have t1: "ascii_trim '' crows  '' = ''crows''" by (simp add: resolve_defs)
  have t2: "ascii_trim ''Crows '' = ''Crows''" by (simp add: resolve_defs)
  have t3: "ascii_trim ''   '' = []" by (simp add: resolve_defs)
  have t4: "ascii_trim ''Crows'' = ''Crows''" by (simp add: resolve_defs)
  have b: "byName (factionDirectoryCache ?S) = [(''Crows'', crows)]"
    by (simp add: directory_defs)
  have l: "labels (list (factionDirectoryCache ?S)) = [''Crows'']"
    by (simp add: directory_defs labels_def)
  have m1: "map_of (byName (factionDirectoryCache ?S)) ''crows'' = None"
    by (simp add: b)
  have m2: "map_of (byName (factionDirectoryCache ?S)) (ascii_trim ''Crows '') = Some crows"
    by (simp add: b t2)
  have f: "List.find (\<lambda>label. ascii_toLowerCase label = ascii_toLowerCase ''crows'') [''Crows''] = Some ''Crows''"
    by (simp add: resolve_defs)
  have k1: "ascii_trim ''Crows'' \<noteq> [] \<and> factionDirectoryCache ?B = build_directory ?items 0"
    by (simp add: t4)
  have k2: "ascii_trim ''Crows'' \<in> set (labels ?items)"
    by (simp add: t4 labels_def crows_def)
  note A = resolveFactionName_best_effort[of ascii_trim "'' crows  ''" ascii_toLowerCase ?S]
  note B = resolveFactionName_best_effort[of ascii_trim "''Crows ''" ascii_toLowerCase ?S]
  note C = resolveFactionName_best_effort[of ascii_trim "''   ''" ascii_toLowerCase ?S]
  note D = resolveFactionName_best_effort[of ascii_trim "''Crows''" ascii_toLowerCase ?B ?items 0]
  from A t1 m1 l f have r1: "resolveFactionName ascii_trim ascii_toLowerCase '' crows  '' ?S = ''Crows''"
    by simp
  from B t2 m2 have r2: "resolveFactionName ascii_trim ascii_toLowerCase ''Crows '' ?S = ''Crows''"
    by (simp add: crows_def)
  from C t3 have r3: "resolveFactionName ascii_trim ascii_toLowerCase ''   '' ?S = []"
    by simp
  from D k1 k2 have "resolveFactionName ascii_trim ascii_toLowerCase ''Crows'' ?B = ascii_trim ''Crows''"
    by blast
  then have r4: "resolveFactionName ascii_trim ascii_toLowerCase ''Crows'' ?B = ''Crows''"
    by (simp only: t4)
  from t1 m1 r1 m2 r2 t3 r3 k2 r4 show ?thesis by blast
qed

text \<open>
  C9, as stated, fails on an input with blanks around it and no match in the directory:
  the result is the trimmed input, which is not the input.
\<close>

theorem resolveFactionName_counterexample:
  "resolveFactionName ascii_trim ascii_toLowerCase '' Ravens '' (cached_session []) = ''Ravens'' \<and>
   resolveFactionName ascii_trim ascii_toLowerCase '' Ravens '' (cached_session []) \<noteq> '' Ravens ''"
  by (simp add: resolve_defs directory_defs)

end
